theory Spec2Isabelle
  imports Complex_Main
begin

section \<open>Tame: the volume limiter of \<^verbatim>\<open>src/tame.py\<close>\<close>

text \<open>
  The development embeds the classes \<^verbatim>\<open>AudioController\<close> and \<^verbatim>\<open>VolumeLimiter\<close>.
  Python floats are read as real numbers: rounding and NaN are outside the model, and so is
  overflow. One operation of the controller raises when it overflows, the power of line 315;
  the model takes it as the real power, an error of the model is a division by zero, and
  \<open>leeway_factor_in_range\<close> below says of a limiter that line 315 returns.
  The Windows audio endpoint behind the two COM interfaces is a record: its master volume,
  the value of its peak meter, and whether a call to it succeeds or throws.
  Every call to the endpoint and every float division is appended to a trace, a ghost field
  that the Python code never reads; theorems about what a tick reads, writes or divides by
  are statements about the events a function appends to it.
\<close>

subsection \<open>Events, errors and the endpoint\<close>

datatype py_error = ZeroDivisionError

datatype div_site =
    ReleaseRate      \<comment> \<open>\<^verbatim>\<open>1.0 / self.release_time\<close>\<close>
  | PeakNormalize    \<comment> \<open>\<^verbatim>\<open>peak / vol\<close>\<close>
  | LeewayDb         \<comment> \<open>\<^verbatim>\<open>self.leeway_db / 20\<close>\<close>
  | LeewaySpan       \<comment> \<open>\<^verbatim>\<open>(potential_output - volume_cap) / (soft_threshold - volume_cap)\<close>\<close>
  | RampProgress     \<comment> \<open>\<^verbatim>\<open>time_since_attack / self.dampening_speed\<close>\<close>
  | BaseTarget       \<comment> \<open>\<^verbatim>\<open>self.volume_cap / raw_peak\<close>\<close>
  | SustainedFactor  \<comment> \<open>\<^verbatim>\<open>target_volume / sustained_factor\<close>\<close>

datatype event =
    GetPeakValue                \<comment> \<open>\<^verbatim>\<open>self._meter.GetPeakValue()\<close>\<close>
  | GetMasterVolume             \<comment> \<open>\<^verbatim>\<open>GetMasterVolumeLevelScalar()\<close>\<close>
  | SetMasterVolume real        \<comment> \<open>\<^verbatim>\<open>SetMasterVolumeLevelScalar(level, None)\<close>\<close>
  | Division div_site real      \<comment> \<open>a division, with its denominator\<close>

record endpoint =
  master_volume :: real
  peak_value :: real
  volume_read_ok :: bool
  peak_read_ok :: bool
  volume_write_ok :: bool

subsection \<open>AudioController\<close>

record audio_controller =
  endpoint :: endpoint
  cached_volume :: real
  last_set_volume :: real
  user_set_time :: "real option"
  user_set_volume :: real
  trace :: "event list"

definition log_event :: "event \<Rightarrow> audio_controller \<Rightarrow> audio_controller" where
  "log_event e a = a\<lparr>trace := trace a @ [e]\<rparr>"

text \<open>Float division: the denominator is recorded, and a zero denominator raises.\<close>

definition py_div ::
  "div_site \<Rightarrow> real \<Rightarrow> real \<Rightarrow> audio_controller \<Rightarrow> (py_error + real) \<times> audio_controller" where
  "py_div site x y a =
     (if y = 0 then Inl ZeroDivisionError else Inr (x / y), log_event (Division site y) a)"

text \<open>\<^verbatim>\<open>AudioController.__init__\<close>, given the endpoint it finds.\<close>

definition audio_init :: "endpoint \<Rightarrow> audio_controller" where
  "audio_init ep =
     \<lparr>endpoint = ep,
      cached_volume = master_volume ep,
      last_set_volume = master_volume ep,
      user_set_time = None,
      user_set_volume = master_volume ep,
      trace = [GetMasterVolume]\<rparr>"

text \<open>
  \<^verbatim>\<open>get_raw_peak\<close>: the bare \<^verbatim>\<open>except\<close> turns every exception of the body, a failed
  meter read as well as a division error, into the result \<open>0.0\<close>.
\<close>

definition get_raw_peak :: "audio_controller \<Rightarrow> real \<times> audio_controller" where
  "get_raw_peak a =
     (let a1 = log_event GetPeakValue a in
      if \<not> peak_read_ok (endpoint a1) then (0, a1)
      else
        let peak = peak_value (endpoint a1);
            vol = cached_volume a1
        in if vol > 0.01 then
             (case py_div PeakNormalize peak vol a1 of
                (Inl e, a2) \<Rightarrow> (0, a2)
              | (Inr q, a2) \<Rightarrow> (min 1 q, a2))
           else (peak, a1))"

definition get_volume :: "audio_controller \<Rightarrow> real \<times> audio_controller" where
  "get_volume a =
     (let a1 = log_event GetMasterVolume a in
      if volume_read_ok (endpoint a1)
      then (master_volume (endpoint a1), a1\<lparr>cached_volume := master_volume (endpoint a1)\<rparr>)
      else (cached_volume a1, a1))"

text \<open>
  \<^verbatim>\<open>set_volume\<close>: the level is clamped, then written; when the write throws, the two
  assignments after it are skipped and the exception is swallowed.
\<close>

definition set_volume :: "real \<Rightarrow> audio_controller \<Rightarrow> audio_controller" where
  "set_volume level a =
     (let level = max 0 (min 1 level);
          a1 = log_event (SetMasterVolume level) a
      in if volume_write_ok (endpoint a1)
         then a1\<lparr>endpoint := (endpoint a1)\<lparr>master_volume := level\<rparr>,
                 last_set_volume := level,
                 cached_volume := level\<rparr>
         else a1)"

text \<open>\<^verbatim>\<open>check_user_changed\<close>; \<open>t\<close> is the value of \<^verbatim>\<open>time.time()\<close> it reads.\<close>

definition check_user_changed :: "real \<Rightarrow> audio_controller \<Rightarrow> bool \<times> audio_controller" where
  "check_user_changed t a =
     (let (current, a1) = get_volume a in
      if \<bar>current - last_set_volume a1\<bar> > 0.01
      then (True, a1\<lparr>user_set_time := Some t,
                      user_set_volume := current,
                      last_set_volume := current\<rparr>)
      else (False, a1))"

subsection \<open>VolumeLimiter\<close>

record settings =
  s_volume_cap :: real
  s_attack_time :: real
  s_release_time :: real
  s_hold_time :: real
  s_user_cooldown :: real
  s_leeway_db :: real
  s_dampening :: real
  s_dampening_speed :: real
  s_voice_mode :: bool

text \<open>\<^verbatim>\<open>Settings.set_defaults\<close>, the fields the limiter reads.\<close>

definition set_defaults :: settings where
  "set_defaults =
     \<lparr>s_volume_cap = 0.2, s_attack_time = 0.05, s_release_time = 0.5, s_hold_time = 0.15,
      s_user_cooldown = 2.0, s_leeway_db = 3.0, s_dampening = 1.0, s_dampening_speed = 0.0,
      s_voice_mode = False\<rparr>"

text \<open>
  The fields of \<^verbatim>\<open>VolumeLimiter\<close>; \<open>last_time\<close> is the local variable of \<^verbatim>\<open>_run\<close>
  that carries the time of the previous pass.
\<close>

record limiter =
  audio :: audio_controller
  is_running :: bool
  volume_cap :: real
  original_volume :: real
  current_peak :: real
  current_volume :: real
  is_limiting :: bool
  last_over_threshold_time :: real
  time_over_threshold :: real
  peak_start_time :: real
  attack_time :: real
  release_time :: real
  hold_time :: real
  user_cooldown :: real
  leeway_db :: real
  dampening :: real
  dampening_speed :: real
  voice_mode :: bool
  release_rate :: real
  ui_peak :: real
  ui_volume :: real
  last_time :: real

definition bind_e :: "py_error + 'a \<Rightarrow> ('a \<Rightarrow> py_error + 'b) \<Rightarrow> py_error + 'b" where
  "bind_e m f = (case m of Inl e \<Rightarrow> Inl e | Inr x \<Rightarrow> f x)"

text \<open>
  Sequencing for a division in a method of the limiter, where an exception is not caught:
  the result of the division and the audio controller, whose trace has grown, go on to
  the rest of the method.
\<close>

definition bind_d ::
  "(py_error + 'a) \<times> audio_controller \<Rightarrow> ('a \<Rightarrow> audio_controller \<Rightarrow> py_error + 'b)
     \<Rightarrow> py_error + 'b" where
  "bind_d m f = (case m of (Inl e, a) \<Rightarrow> Inl e | (Inr x, a) \<Rightarrow> f x a)"

definition update_release_rate :: "limiter \<Rightarrow> py_error + limiter" where
  "update_release_rate l =
     (if release_time l > 0
      then bind_d (py_div ReleaseRate 1 (release_time l) (audio l))
             (\<lambda>q a. Inr (l\<lparr>audio := a, release_rate := q\<rparr>))
      else Inr (l\<lparr>release_rate := 10\<rparr>))"

text \<open>
  \<^verbatim>\<open>VolumeLimiter.__init__\<close>; \<open>t0\<close> is the time at which \<^verbatim>\<open>_run\<close> starts and
  initialises \<open>last_time\<close>.
\<close>

definition limiter_init :: "settings \<Rightarrow> audio_controller \<Rightarrow> real \<Rightarrow> py_error + limiter" where
  "limiter_init s a t0 =
     (let (v, a1) = get_volume a in
      update_release_rate
        \<lparr>audio = a1, is_running = True, volume_cap = s_volume_cap s, original_volume = v,
         current_peak = 0, current_volume = v, is_limiting = False,
         last_over_threshold_time = 0, time_over_threshold = 0, peak_start_time = 0,
         attack_time = s_attack_time s, release_time = s_release_time s,
         hold_time = s_hold_time s, user_cooldown = s_user_cooldown s,
         leeway_db = s_leeway_db s, dampening = s_dampening s,
         dampening_speed = s_dampening_speed s, voice_mode = s_voice_mode s,
         release_rate = 0, ui_peak = 0, ui_volume = v, last_time = t0\<rparr>)"

text \<open>\<^verbatim>\<open>TameGUI._toggle\<close>, its effect on the limiter.\<close>

definition toggle :: "limiter \<Rightarrow> limiter" where
  "toggle l = l\<lparr>is_running := \<not> is_running l\<rparr>"

subsection \<open>One pass of the loop of \<^verbatim>\<open>_run\<close>\<close>

text \<open>Lines 292 to 297: the user's own volume change rebaselines the limiter.\<close>

definition detect_user_change :: "real \<Rightarrow> limiter \<Rightarrow> limiter" where
  "detect_user_change t l =
     (let (changed, a1) = check_user_changed t (audio l);
          l1 = l\<lparr>audio := a1\<rparr>
      in if changed
         then l1\<lparr>original_volume := user_set_volume a1,
                 is_limiting := False,
                 time_over_threshold := 0\<rparr>
         else l1)"

text \<open>
  Line 300. A Python float is false when it is \<open>0.0\<close>, and \<^verbatim>\<open>None\<close> is false.
\<close>

definition in_user_cooldown :: "real \<Rightarrow> limiter \<Rightarrow> bool" where
  "in_user_cooldown now l =
     (case user_set_time (audio l) of
        None \<Rightarrow> False
      | Some t \<Rightarrow> t \<noteq> 0 \<and> now - t < user_cooldown l)"

text \<open>Lines 323 to 360: the signal has been over the threshold for the attack time.\<close>

definition limit :: "real \<Rightarrow> real \<Rightarrow> real \<Rightarrow> limiter \<Rightarrow> py_error + limiter" where
  "limit raw_peak potential_output soft_threshold l =
     (let l1 = (if \<not> is_limiting l then l\<lparr>is_limiting := True\<rparr> else l) in
      bind_d (if potential_output \<ge> soft_threshold then (Inr 1, audio l1)
              else py_div LeewaySpan (potential_output - volume_cap l1)
                     (soft_threshold - volume_cap l1) (audio l1))
      (\<lambda>leeway_ratio a1.
      let time_since_attack = time_over_threshold l1 - attack_time l1 in
      bind_d (if dampening_speed l1 > 0.001
              then (case py_div RampProgress time_since_attack (dampening_speed l1) a1 of
                      (Inl e, a) \<Rightarrow> (Inl e, a)
                    | (Inr q, a) \<Rightarrow> (Inr (min 1 q), a))
              else (Inr 1, a1))
      (\<lambda>ramp_progress a2.
      let sustained_factor = 1 + (dampening l1 - 1) * ramp_progress;
          sustained_factor = max 1 (min (dampening l1) sustained_factor)
      in
      bind_d (py_div BaseTarget (volume_cap l1) raw_peak a2)
      (\<lambda>base_target a3.
      let target_volume = original_volume l1 * (1 - leeway_ratio) + base_target * leeway_ratio in
      bind_d (py_div SustainedFactor target_volume sustained_factor a3)
      (\<lambda>target_volume a4.
      let target_volume = max 0.01 (min 1 target_volume) in
      Inr (l1\<lparr>audio := set_volume target_volume a4\<rparr>))))))"

text \<open>Lines 362 to 381: the signal is under the threshold.\<close>

definition release :: "real \<Rightarrow> real \<Rightarrow> limiter \<Rightarrow> limiter" where
  "release now dt l =
     (let l1 = l\<lparr>time_over_threshold := 0\<rparr> in
      if is_limiting l1 then
        let time_since_loud = now - last_over_threshold_time l1 in
        if time_since_loud > hold_time l1 then
          let (current, a1) = get_volume (audio l1);
              target = original_volume l1
          in if current < target - 0.005 then
               let new_vol = current + release_rate l1 * dt;
                   new_vol = min new_vol target
               in l1\<lparr>audio := set_volume new_vol a1\<rparr>
             else l1\<lparr>audio := set_volume target a1, is_limiting := False\<rparr>
        else l1
      else l1)"

text \<open>Lines 305 to 307: the sample of this pass.\<close>

definition sample :: "limiter \<Rightarrow> real \<times> limiter" where
  "sample l =
     (let (raw_peak, a1) = get_raw_peak (audio l);
          (v, a2) = get_volume a1
      in (raw_peak, l\<lparr>audio := a2, current_peak := raw_peak, current_volume := v\<rparr>))"

text \<open>
  Line 315 computes the leeway factor as \<^verbatim>\<open>10 ** (self.leeway_db / 20)\<close>. Float division and
  multiplication overflow to infinity, but \<^verbatim>\<open>**\<close> raises \<^verbatim>\<open>OverflowError\<close> when its result
  is beyond the largest float, and nothing in \<^verbatim>\<open>_run\<close> catches it. For the base 10 that
  happens for a \<open>leeway_db\<close> a little above 6165; the settings dialog offers 0 to 12 and
  the settings file is read unchecked. The predicate says of a limiter that the line
  returns. The model below takes the power as the real one, so it describes the pass of a
  limiter in that range.
\<close>

definition float_max :: real where
  "float_max = (2 ^ 53 - 1) * 2 ^ 971"

definition leeway_factor_in_range :: "limiter \<Rightarrow> bool" where
  "leeway_factor_in_range l = (10 powr (leeway_db l / 20) \<le> float_max)"

text \<open>Lines 305 to 381: sample, threshold test, then limiting or release.\<close>

definition control :: "real \<Rightarrow> real \<Rightarrow> limiter \<Rightarrow> py_error + limiter" where
  "control now dt l =
     (let (raw_peak, l1) = sample l;
          potential_output = raw_peak * original_volume l1
      in
      bind_d (py_div LeewayDb (leeway_db l1) 20 (audio l1))
      (\<lambda>e a.
      let l2 = l1\<lparr>audio := a\<rparr>;
          leeway_factor = 10 powr e;
          soft_threshold = volume_cap l2 * leeway_factor
      in
      if potential_output > volume_cap l2 \<and> raw_peak > 0.001 then
        let l3 = l2\<lparr>time_over_threshold := time_over_threshold l2 + dt,
                    last_over_threshold_time := now\<rparr>
        in if time_over_threshold l3 \<ge> attack_time l3
           then limit raw_peak potential_output soft_threshold l3
           else Inr l3
      else Inr (release now dt l2)))"

text \<open>Lines 383 to 385: the values the user interface shows.\<close>

definition publish :: "limiter \<Rightarrow> limiter" where
  "publish l =
     (let (p, a1) = get_raw_peak (audio l);
          (v, a2) = get_volume a1
      in l\<lparr>audio := a2, ui_peak := p, ui_volume := v\<rparr>)"

text \<open>
  One pass of the \<^verbatim>\<open>while\<close> loop with the stop event not set. \<open>now\<close> is the value of
  \<^verbatim>\<open>time.time()\<close> at line 288 and \<open>t\<close> the value read inside \<^verbatim>\<open>check_user_changed\<close>.
  The two \<^verbatim>\<open>continue\<close> statements leave the pass before the user interface values are
  written.
\<close>

definition iteration :: "real \<Rightarrow> real \<Rightarrow> limiter \<Rightarrow> py_error + limiter" where
  "iteration now t l =
     (if \<not> is_running l then Inr (l\<lparr>time_over_threshold := 0\<rparr>)
      else
        let dt = now - last_time l;
            l1 = l\<lparr>last_time := now\<rparr>;
            l2 = detect_user_change t l1
        in if in_user_cooldown now l2 then Inr l2
           else bind_e (control now dt l2) (\<lambda>l3. Inr (publish l3)))"

text \<open>Consecutive passes, each with its two clock readings; an exception ends the thread.\<close>

fun run_loop :: "(real \<times> real) list \<Rightarrow> limiter \<Rightarrow> py_error + limiter" where
  "run_loop [] l = Inr l"
| "run_loop ((now, t) # ts) l = bind_e (iteration now t l) (run_loop ts)"

text \<open>The events a computation appended: the trace after it, without the trace before it.\<close>

definition emitted :: "audio_controller \<Rightarrow> audio_controller \<Rightarrow> event list" where
  "emitted a a' = drop (length (trace a)) (trace a')"

fun is_peak_read :: "event \<Rightarrow> bool" where
  "is_peak_read GetPeakValue = True"
| "is_peak_read _ = False"

fun is_volume_write :: "event \<Rightarrow> bool" where
  "is_volume_write (SetMasterVolume v) = True"
| "is_volume_write _ = False"

subsection \<open>Closed forms of the limiting step\<close>

text \<open>
  The values that \<open>limit\<close> computes on the way to the volume it writes, as functions of
  the quantities they depend on. They are used to state what \<open>limit\<close> returns; the
  lemma \<open>limit_eq\<close> proves that it returns exactly this.
\<close>

definition leeway_ratio_of :: "real \<Rightarrow> real \<Rightarrow> real \<Rightarrow> real" where
  "leeway_ratio_of potential_output cap soft_threshold =
     (if potential_output \<ge> soft_threshold then 1
      else (potential_output - cap) / (soft_threshold - cap))"

definition ramp_progress_of :: "real \<Rightarrow> real \<Rightarrow> real" where
  "ramp_progress_of speed time_since_attack =
     (if speed > 0.001 then min 1 (time_since_attack / speed) else 1)"

definition sustained_factor_of :: "real \<Rightarrow> real \<Rightarrow> real" where
  "sustained_factor_of damp ramp_progress = max 1 (min damp (1 + (damp - 1) * ramp_progress))"

definition target_volume_of :: "real \<Rightarrow> real \<Rightarrow> real \<Rightarrow> real \<Rightarrow> real \<Rightarrow> real" where
  "target_volume_of original cap raw_peak leeway_ratio sustained_factor =
     max 0.01 (min 1
       ((original * (1 - leeway_ratio) + cap / raw_peak * leeway_ratio) / sustained_factor))"

definition limit_divisions :: "real \<Rightarrow> real \<Rightarrow> real \<Rightarrow> real \<Rightarrow> real \<Rightarrow> real \<Rightarrow> event list" where
  "limit_divisions potential_output cap soft_threshold speed raw_peak sustained_factor =
     (if potential_output \<ge> soft_threshold then []
      else [Division LeewaySpan (soft_threshold - cap)])
     @ (if speed > 0.001 then [Division RampProgress speed] else [])
     @ [Division BaseTarget raw_peak, Division SustainedFactor sustained_factor]"

text \<open>The sustained factor and the target volume of a limiter state, for a given sample.\<close>

definition sustained_factor_at :: "limiter \<Rightarrow> real" where
  "sustained_factor_at l =
     sustained_factor_of (dampening l)
       (ramp_progress_of (dampening_speed l) (time_over_threshold l - attack_time l))"

definition target_volume_at :: "real \<Rightarrow> real \<Rightarrow> real \<Rightarrow> limiter \<Rightarrow> real" where
  "target_volume_at raw_peak potential_output soft_threshold l =
     target_volume_of (original_volume l) (volume_cap l) raw_peak
       (leeway_ratio_of potential_output (volume_cap l) soft_threshold)
       (sustained_factor_at l)"

text \<open>
  The state of a pass after its sample (lines 305 to 307) and the division of line 315,
  where the threshold test is made, and the soft threshold computed there.
\<close>

definition after_sample :: "limiter \<Rightarrow> limiter" where
  "after_sample l =
     (snd (sample l))\<lparr>audio := log_event (Division LeewayDb 20) (audio (snd (sample l)))\<rparr>"

definition soft_threshold_at :: "limiter \<Rightarrow> real" where
  "soft_threshold_at l = volume_cap l * 10 powr (leeway_db l / 20)"

subsection \<open>Predicates on the trace\<close>

text \<open>
  The condition under which the code reaches each division: the guard that the source
  places before it, read as a bound on the denominator.
\<close>

fun site_guard :: "div_site \<Rightarrow> real \<Rightarrow> bool" where
  "site_guard ReleaseRate d = (0 < d)"
| "site_guard PeakNormalize d = (0.01 < d)"
| "site_guard LeewayDb d = (d = 20)"
| "site_guard LeewaySpan d = (0 < d)"
| "site_guard RampProgress d = (0.001 < d)"
| "site_guard BaseTarget d = (0.001 < d)"
| "site_guard SustainedFactor d = (1 \<le> d)"

fun division_guarded :: "event \<Rightarrow> bool" where
  "division_guarded (Division site d) = (site_guard site d \<and> 0 < d)"
| "division_guarded _ = True"

fun no_peak_read_or_write :: "event \<Rightarrow> bool" where
  "no_peak_read_or_write GetPeakValue = False"
| "no_peak_read_or_write (SetMasterVolume v) = False"
| "no_peak_read_or_write _ = True"

text \<open>The levels written to the endpoint, in order.\<close>

fun volume_writes :: "event list \<Rightarrow> real list" where
  "volume_writes [] = []"
| "volume_writes (SetMasterVolume v # es) = v # volume_writes es"
| "volume_writes (e # es) = volume_writes es"

text \<open>
  \<open>grows P a a'\<close>: the trace of \<open>a'\<close> is the trace of \<open>a\<close> followed by events that all
  satisfy \<open>P\<close>.
\<close>

definition grows :: "(event \<Rightarrow> bool) \<Rightarrow> audio_controller \<Rightarrow> audio_controller \<Rightarrow> bool" where
  "grows P a a' = (\<exists>es. trace a' = trace a @ es \<and> list_all P es)"

subsection \<open>Example states\<close>

text \<open>An endpoint at full volume whose meter shows a peak of one half, every call succeeding.\<close>

definition example_endpoint :: endpoint where
  "example_endpoint =
     \<lparr>master_volume = 1, peak_value = 0.5, volume_read_ok = True, peak_read_ok = True,
      volume_write_ok = True\<rparr>"

text \<open>
  The limiter that \<^verbatim>\<open>VolumeLimiter.__init__\<close> builds on that endpoint from the given
  settings, its loop starting at time 0.
\<close>

definition example_limiter :: "settings \<Rightarrow> limiter" where
  "example_limiter s = projr (limiter_init s (audio_init example_endpoint) 0)"

text \<open>
  The default limiter after one pass 20 ms after its start: the signal is over the
  threshold, and the attack time has not yet gone by.
\<close>

definition attacking_limiter :: limiter where
  "attacking_limiter = projr (iteration 0.02 0.02 (example_limiter set_defaults))"


text \<open>The same limiter after the user has moved the system volume to one half.\<close>

definition user_moved_limiter :: limiter where
  "user_moved_limiter =
     (attacking_limiter)
       \<lparr>audio := (audio attacking_limiter)
          \<lparr>endpoint := example_endpoint\<lparr>master_volume := 0.5\<rparr>\<rparr>\<rparr>"

text \<open>
  With no leeway, the limiter after the pass at 50 ms that engages limiting; the same
  limiter once the signal has gone quiet; and the quiet limiter after release steps have
  brought the volume back to 0.998.
\<close>

definition limiting_limiter :: limiter where
  "limiting_limiter =
     projr (iteration 0.05 0.05 (example_limiter (set_defaults\<lparr>s_leeway_db := 0\<rparr>)))"

definition quiet_limiter :: limiter where
  "quiet_limiter =
     limiting_limiter
       \<lparr>audio := (audio limiting_limiter)
          \<lparr>endpoint := (endpoint (audio limiting_limiter))\<lparr>peak_value := 0\<rparr>\<rparr>\<rparr>"

definition restored_limiter :: limiter where
  "restored_limiter =
     quiet_limiter
       \<lparr>audio := (audio quiet_limiter)
          \<lparr>endpoint := (endpoint (audio quiet_limiter))\<lparr>master_volume := 0.998\<rparr>,
            last_set_volume := 0.998, cached_volume := 0.998\<rparr>\<rparr>"

text \<open>
  A limiter with the smallest cap of the settings dialog, 0.05, and a leeway of 20 dB, so
  that its soft threshold is 0.5 and the leeway zone is wide; its original volume is 0.6.
\<close>

definition knee_limiter :: limiter where
  "knee_limiter =
     (example_limiter (set_defaults\<lparr>s_volume_cap := 0.05, s_leeway_db := 20\<rparr>))
       \<lparr>original_volume := 0.6\<rparr>"

text \<open>
  The end-to-end example of the specification while the attack time runs: the limiter runs
  with cap 0.2, attack time 50 ms, no leeway and no dampening; the original volume and the
  endpoint's volume are 1 and the meter shows one half, so the raw peak is one half; no
  user change is on record and limiting is off. The loop started at \<open>t0\<close>, the last
  pass was at \<open>tk\<close>, and the signal has been over the threshold since the start.
\<close>

definition ready :: "real \<Rightarrow> real \<Rightarrow> limiter \<Rightarrow> bool" where
  "ready t0 tk l =
     (is_running l \<and> volume_cap l = 0.2 \<and> attack_time l = 0.05 \<and> leeway_db l = 0
      \<and> dampening l = 1 \<and> original_volume l = 1 \<and> \<not> is_limiting l
      \<and> time_over_threshold l = tk - t0 \<and> last_time l = tk
      \<and> endpoint (audio l) = example_endpoint
      \<and> cached_volume (audio l) = 1 \<and> last_set_volume (audio l) = 1
      \<and> user_set_time (audio l) = None)"

section \<open>Properties\<close>

subsection \<open>What each method appends to the trace\<close>

lemma emitted_append: "trace a' = trace a @ es \<Longrightarrow> emitted a a' = es"
  by (simp add: emitted_def)

lemma trace_log_event: "trace (log_event e a) = trace a @ [e]"
  by (simp add: log_event_def)

lemma trace_set_volume: "trace (set_volume v a) = trace a @ [SetMasterVolume (max 0 (min 1 v))]"
  by (simp add: set_volume_def log_event_def Let_def)

lemma trace_get_volume: "trace (snd (get_volume a)) = trace a @ [GetMasterVolume]"
  by (simp add: get_volume_def log_event_def Let_def)

lemma trace_get_raw_peak:
  "trace (snd (get_raw_peak a)) =
     trace a @ GetPeakValue #
       (if peak_read_ok (endpoint a) \<and> cached_volume a > 0.01
        then [Division PeakNormalize (cached_volume a)] else [])"
  by (simp add: get_raw_peak_def py_div_def log_event_def Let_def)

subsection \<open>The level written by \<^verbatim>\<open>set_volume\<close>\<close>

text \<open>
  C10. For every requested level, \<open>set_volume\<close> asks the endpoint for exactly one value,
  the level clamped to the interval from 0 to 1. When the write succeeds, the endpoint, the
  last written volume and the cached volume all hold the clamped value; when it fails, the
  last written and cached volumes are left as they were. So a last written or cached volume
  that was between 0 and 1 before the call is between 0 and 1 after it.
\<close>

theorem set_volume_clamps:
  "emitted a (set_volume level a) = [SetMasterVolume (max 0 (min 1 level))]
   \<and> 0 \<le> max 0 (min 1 level) \<and> max 0 (min 1 level) \<le> 1
   \<and> (volume_write_ok (endpoint a) \<longrightarrow>
        master_volume (endpoint (set_volume level a)) = max 0 (min 1 level)
        \<and> last_set_volume (set_volume level a) = max 0 (min 1 level)
        \<and> cached_volume (set_volume level a) = max 0 (min 1 level))
   \<and> (\<not> volume_write_ok (endpoint a) \<longrightarrow>
        last_set_volume (set_volume level a) = last_set_volume a
        \<and> cached_volume (set_volume level a) = cached_volume a)
   \<and> (0 \<le> last_set_volume a \<and> last_set_volume a \<le> 1 \<longrightarrow>
        0 \<le> last_set_volume (set_volume level a) \<and> last_set_volume (set_volume level a) \<le> 1)
   \<and> (0 \<le> cached_volume a \<and> cached_volume a \<le> 1 \<longrightarrow>
        0 \<le> cached_volume (set_volume level a) \<and> cached_volume (set_volume level a) \<le> 1)"
proof -
  have tr: "emitted a (set_volume level a) = [SetMasterVolume (max 0 (min 1 level))]"
    by (rule emitted_append) (rule trace_set_volume)
  show ?thesis
    unfolding tr by (simp add: set_volume_def log_event_def Let_def)
qed

theorem set_volume_clamps_witness:
  "emitted (audio_init example_endpoint) (set_volume 1.5 (audio_init example_endpoint))
     = [SetMasterVolume 1]
   \<and> last_set_volume (set_volume 1.5 (audio_init example_endpoint)) = 1
   \<and> cached_volume (set_volume 1.5 (audio_init example_endpoint)) = 1
   \<and> master_volume (endpoint (set_volume 1.5 (audio_init example_endpoint))) = 1
   \<and> volume_write_ok (endpoint (audio_init example_endpoint))
   \<and> 0 \<le> last_set_volume (audio_init example_endpoint)
   \<and> last_set_volume (audio_init example_endpoint) \<le> 1
   \<and> last_set_volume (set_volume (-3) (audio_init example_endpoint)) = 0"
  using set_volume_clamps [of "audio_init example_endpoint" "1.5"]
    set_volume_clamps [of "audio_init example_endpoint" "-3"]
  by (simp add: audio_init_def example_endpoint_def)

subsection \<open>Telling the limiter's own writes from the user's\<close>

text \<open>
  C9. A successful \<open>set_volume\<close> records the written (clamped) level as the last written
  volume, so a \<open>check_user_changed\<close> right after it answers False, whatever value \<open>d\<close>
  within 0.01 of the written level the endpoint then reports, and also when the read fails.
  And when \<open>check_user_changed\<close> answers True it makes the observed volume the last written
  volume, so a second call on the unchanged endpoint answers False.
\<close>

theorem self_write_not_user_change:
  "(volume_write_ok (endpoint a) \<longrightarrow>
      last_set_volume (set_volume level a) = max 0 (min 1 level)
      \<and> (\<bar>d - max 0 (min 1 level)\<bar> \<le> 0.01 \<longrightarrow>
           \<not> fst (check_user_changed t
                 ((set_volume level a)
                    \<lparr>endpoint := (endpoint (set_volume level a))\<lparr>master_volume := d\<rparr>\<rparr>))))
   \<and> (fst (check_user_changed t a) \<longrightarrow>
        last_set_volume (snd (check_user_changed t a)) = fst (get_volume a)
        \<and> \<not> fst (check_user_changed t' (snd (check_user_changed t a))))"
  by (simp add: check_user_changed_def get_volume_def set_volume_def log_event_def Let_def
        split: if_splits)

theorem self_write_not_user_change_witness:
  "volume_write_ok (endpoint (audio_init example_endpoint))
   \<and> last_set_volume (set_volume 0.4 (audio_init example_endpoint)) = 0.4
   \<and> \<not> fst (check_user_changed 7 (set_volume 0.4 (audio_init example_endpoint)))
   \<and> fst (check_user_changed 7 (audio_init example_endpoint
             \<lparr>endpoint := example_endpoint\<lparr>master_volume := 0.5\<rparr>\<rparr>))
   \<and> last_set_volume (snd (check_user_changed 7 (audio_init example_endpoint
             \<lparr>endpoint := example_endpoint\<lparr>master_volume := 0.5\<rparr>\<rparr>))) = 0.5
   \<and> \<not> fst (check_user_changed 8 (snd (check_user_changed 7 (audio_init example_endpoint
             \<lparr>endpoint := example_endpoint\<lparr>master_volume := 0.5\<rparr>\<rparr>))))"
  using self_write_not_user_change [of "audio_init example_endpoint" "0.4" "0.4" 7 8]
    self_write_not_user_change [of "audio_init example_endpoint
             \<lparr>endpoint := example_endpoint\<lparr>master_volume := 0.5\<rparr>\<rparr>" 0 0 7 8]
  by (simp add: audio_init_def example_endpoint_def check_user_changed_def get_volume_def
        set_volume_def log_event_def Let_def)

subsection \<open>The limiting step in closed form\<close>

lemma py_div_ok:
  "y \<noteq> 0 \<Longrightarrow> py_div site x y a = (Inr (x / y), log_event (Division site y) a)"
  by (simp add: py_div_def)

lemma bind_d_Inr: "bind_d (Inr x, a) f = f x a"
  by (simp add: bind_d_def)

lemma bind_e_Inr: "bind_e (Inr x) f = f x"
  by (simp add: bind_e_def)

lemma max_one_nonzero: "max 1 (x::real) \<noteq> 0"
  by (simp add: max_def)

lemma engage_eq: "(if \<not> is_limiting l then l\<lparr>is_limiting := True\<rparr> else l) = l\<lparr>is_limiting := True\<rparr>"
  by (cases "is_limiting l") simp_all

lemma log_events_2:
  "log_event e2 (log_event e1 a) = a\<lparr>trace := trace a @ [e1, e2]\<rparr>"
  by (simp add: log_event_def)

lemma log_events_3:
  "log_event e3 (log_event e2 (log_event e1 a)) = a\<lparr>trace := trace a @ [e1, e2, e3]\<rparr>"
  by (simp add: log_event_def)

lemma log_events_4:
  "log_event e4 (log_event e3 (log_event e2 (log_event e1 a)))
     = a\<lparr>trace := trace a @ [e1, e2, e3, e4]\<rparr>"
  by (simp add: log_event_def)

lemma engaged_audio:
  "audio (l\<lparr>is_limiting := True\<rparr>) = audio l"
  "volume_cap (l\<lparr>is_limiting := True\<rparr>) = volume_cap l"
  "original_volume (l\<lparr>is_limiting := True\<rparr>) = original_volume l"
  "dampening (l\<lparr>is_limiting := True\<rparr>) = dampening l"
  "dampening_speed (l\<lparr>is_limiting := True\<rparr>) = dampening_speed l"
  "time_over_threshold (l\<lparr>is_limiting := True\<rparr>) = time_over_threshold l"
  "attack_time (l\<lparr>is_limiting := True\<rparr>) = attack_time l"
  by simp_all


lemma limit_eq:
  assumes rp: "raw_peak > 0.001" and over: "potential_output > volume_cap l"
  shows "limit raw_peak potential_output soft_threshold l =
     Inr (l\<lparr>is_limiting := True,
            audio := set_volume (target_volume_at raw_peak potential_output soft_threshold l)
              ((audio l)\<lparr>trace := trace (audio l)
                 @ limit_divisions potential_output (volume_cap l) soft_threshold
                     (dampening_speed l) raw_peak (sustained_factor_at l)\<rparr>)\<rparr>)"
proof -
  have r0: "raw_peak \<noteq> 0" using rp by simp
  show ?thesis
  proof (cases "potential_output \<ge> soft_threshold")
    case full: True
    show ?thesis
    proof (cases "dampening_speed l > 0.001")
      case ramp: True
      have d0: "dampening_speed l \<noteq> 0" using ramp by simp
      show ?thesis
        unfolding limit_def engage_eq target_volume_at_def sustained_factor_at_def
          target_volume_of_def sustained_factor_of_def ramp_progress_of_def
          leeway_ratio_of_def limit_divisions_def
        by (simp only: Let_def engaged_audio full ramp if_True if_False py_div_ok [OF d0]
            py_div_ok [OF r0] py_div_ok [OF max_one_nonzero] bind_d_Inr prod.case sum.case
            log_events_3 append.simps)
    next
      case instant: False
      show ?thesis
        unfolding limit_def engage_eq target_volume_at_def sustained_factor_at_def
          target_volume_of_def sustained_factor_of_def ramp_progress_of_def
          leeway_ratio_of_def limit_divisions_def
        by (simp only: Let_def engaged_audio full instant if_True if_False
            py_div_ok [OF r0] py_div_ok [OF max_one_nonzero] bind_d_Inr prod.case sum.case
            log_events_2 append.simps)
    qed
  next
    case knee: False
    have s0: "soft_threshold - volume_cap l \<noteq> 0" using knee over by simp
    show ?thesis
    proof (cases "dampening_speed l > 0.001")
      case ramp: True
      have d0: "dampening_speed l \<noteq> 0" using ramp by simp
      show ?thesis
        unfolding limit_def engage_eq target_volume_at_def sustained_factor_at_def
          target_volume_of_def sustained_factor_of_def ramp_progress_of_def
          leeway_ratio_of_def limit_divisions_def
        by (simp only: Let_def engaged_audio knee ramp if_True if_False py_div_ok [OF d0]
            py_div_ok [OF s0]
            py_div_ok [OF r0] py_div_ok [OF max_one_nonzero] bind_d_Inr prod.case sum.case
            log_events_4 append.simps)
    next
      case instant: False
      show ?thesis
        unfolding limit_def engage_eq target_volume_at_def sustained_factor_at_def
          target_volume_of_def sustained_factor_of_def ramp_progress_of_def
          leeway_ratio_of_def limit_divisions_def
        by (simp only: Let_def engaged_audio knee instant if_True if_False
            py_div_ok [OF s0]
            py_div_ok [OF r0] py_div_ok [OF max_one_nonzero] bind_d_Inr prod.case sum.case
            log_events_3 append.simps)
    qed
  qed
qed

subsection \<open>How the trace grows\<close>

lemma grows_refl: "grows P a a"
  by (simp add: grows_def)

lemma grows_trans: "grows P a b \<Longrightarrow> grows P b c \<Longrightarrow> grows P a c"
  by (auto simp: grows_def)

lemma grows_same_trace: "trace b = trace a \<Longrightarrow> grows P a b"
  by (simp add: grows_def)

lemma grows_emitted: "grows P a b \<Longrightarrow> trace b = trace a @ emitted a b \<and> list_all P (emitted a b)"
  by (auto simp: grows_def emitted_def)

lemma grows_log_event: "P e \<Longrightarrow> grows P a (log_event e a)"
  by (simp add: grows_def log_event_def)

lemma grows_get_volume: "P GetMasterVolume \<Longrightarrow> grows P a (snd (get_volume a))"
  by (simp add: grows_def trace_get_volume)

lemma grows_set_volume: "P (SetMasterVolume (max 0 (min 1 v))) \<Longrightarrow> grows P a (set_volume v a)"
  by (simp add: grows_def trace_set_volume)

lemma grows_get_raw_peak:
  "P GetPeakValue \<Longrightarrow> (0.01 < cached_volume a \<Longrightarrow> P (Division PeakNormalize (cached_volume a)))
     \<Longrightarrow> grows P a (snd (get_raw_peak a))"
  by (simp add: grows_def trace_get_raw_peak)

lemma trace_check_user_changed:
  "trace (snd (check_user_changed t a)) = trace a @ [GetMasterVolume]"
  by (simp add: check_user_changed_def get_volume_def log_event_def Let_def)

subsection \<open>Fields that the methods of the audio controller leave alone\<close>

lemma get_raw_peak_fields:
  "endpoint (snd (get_raw_peak a)) = endpoint a"
  "cached_volume (snd (get_raw_peak a)) = cached_volume a"
  "last_set_volume (snd (get_raw_peak a)) = last_set_volume a"
  "user_set_time (snd (get_raw_peak a)) = user_set_time a"
  "user_set_volume (snd (get_raw_peak a)) = user_set_volume a"
  by (simp_all add: get_raw_peak_def py_div_def log_event_def Let_def)

lemma get_volume_fields:
  "endpoint (snd (get_volume a)) = endpoint a"
  "last_set_volume (snd (get_volume a)) = last_set_volume a"
  "user_set_time (snd (get_volume a)) = user_set_time a"
  "user_set_volume (snd (get_volume a)) = user_set_volume a"
  "cached_volume (snd (get_volume a)) = fst (get_volume a)"
  by (simp_all add: get_volume_def log_event_def Let_def)

lemma get_volume_value:
  "fst (get_volume a) = (if volume_read_ok (endpoint a) then master_volume (endpoint a)
                         else cached_volume a)"
  by (simp add: get_volume_def log_event_def Let_def)

lemma get_raw_peak_value:
  "fst (get_raw_peak a) =
     (if \<not> peak_read_ok (endpoint a) then 0
      else if cached_volume a > 0.01 then min 1 (peak_value (endpoint a) / cached_volume a)
      else peak_value (endpoint a))"
  by (simp add: get_raw_peak_def py_div_def log_event_def Let_def)


subsection \<open>The phases of one pass\<close>

lemma sample_eq:
  "sample l =
     (fst (get_raw_peak (audio l)),
      l\<lparr>audio := snd (get_volume (snd (get_raw_peak (audio l)))),
        current_peak := fst (get_raw_peak (audio l)),
        current_volume := fst (get_volume (snd (get_raw_peak (audio l))))\<rparr>)"
  by (simp add: sample_def split: prod.splits)

lemma publish_eq:
  "publish l =
     l\<lparr>audio := snd (get_volume (snd (get_raw_peak (audio l)))),
       ui_peak := fst (get_raw_peak (audio l)),
       ui_volume := fst (get_volume (snd (get_raw_peak (audio l))))\<rparr>"
  by (simp add: publish_def split: prod.splits)

lemma detect_user_change_eq:
  "detect_user_change t l =
     (if fst (check_user_changed t (audio l))
      then l\<lparr>audio := snd (check_user_changed t (audio l)),
             original_volume := user_set_volume (snd (check_user_changed t (audio l))),
             is_limiting := False,
             time_over_threshold := 0\<rparr>
      else l\<lparr>audio := snd (check_user_changed t (audio l))\<rparr>)"
  by (simp add: detect_user_change_def Let_def split: prod.splits)

lemma iteration_disabled:
  "\<not> is_running l \<Longrightarrow> iteration now t l = Inr (l\<lparr>time_over_threshold := 0\<rparr>)"
  by (simp add: iteration_def)

lemma iteration_cooldown:
  "is_running l \<Longrightarrow> in_user_cooldown now (detect_user_change t (l\<lparr>last_time := now\<rparr>))
     \<Longrightarrow> iteration now t l = Inr (detect_user_change t (l\<lparr>last_time := now\<rparr>))"
  by (simp add: iteration_def Let_def)

lemma iteration_control:
  "is_running l \<Longrightarrow> \<not> in_user_cooldown now (detect_user_change t (l\<lparr>last_time := now\<rparr>))
     \<Longrightarrow> iteration now t l =
         bind_e (control now (now - last_time l) (detect_user_change t (l\<lparr>last_time := now\<rparr>)))
           (\<lambda>l3. Inr (publish l3))"
  by (simp add: iteration_def Let_def)

lemma sample_fields:
  "original_volume (snd (sample l)) = original_volume l"
  "volume_cap (snd (sample l)) = volume_cap l"
  "leeway_db (snd (sample l)) = leeway_db l"
  "time_over_threshold (snd (sample l)) = time_over_threshold l"
  "attack_time (snd (sample l)) = attack_time l"
  "is_limiting (snd (sample l)) = is_limiting l"
  "is_running (snd (sample l)) = is_running l"
  "last_over_threshold_time (snd (sample l)) = last_over_threshold_time l"
  "hold_time (snd (sample l)) = hold_time l"
  "release_rate (snd (sample l)) = release_rate l"
  "dampening (snd (sample l)) = dampening l"
  "dampening_speed (snd (sample l)) = dampening_speed l"
  "current_peak (snd (sample l)) = fst (sample l)"
  "fst (sample l) = fst (get_raw_peak (audio l))"
  "audio (snd (sample l)) = snd (get_volume (snd (get_raw_peak (audio l))))"
  by (simp_all add: sample_eq)

text \<open>The state after the sample and the division of line 315.\<close>

lemma control_eq:
  "control now dt l =
     (let rp = fst (sample l);
          l2 = (snd (sample l))\<lparr>audio := log_event (Division LeewayDb 20) (audio (snd (sample l)))\<rparr>;
          po = rp * original_volume l;
          soft = volume_cap l * 10 powr (leeway_db l / 20)
      in if po > volume_cap l \<and> rp > 0.001 then
           (let l3 = l2\<lparr>time_over_threshold := time_over_threshold l + dt,
                        last_over_threshold_time := now\<rparr>
            in if time_over_threshold l + dt \<ge> attack_time l
               then limit rp po soft l3 else Inr l3)
         else Inr (release now dt l2))"
proof -
  have n: "(20::real) \<noteq> 0" by simp
  show ?thesis
    unfolding control_def
    by (simp add: py_div_ok [OF n] bind_d_Inr Let_def sample_fields case_prod_beta)
qed

lemma release_eq:
  "release now dt l =
     (if is_limiting l \<and> now - last_over_threshold_time l > hold_time l then
        (if fst (get_volume (audio l)) < original_volume l - 0.005
         then l\<lparr>time_over_threshold := 0,
                audio := set_volume
                  (min (fst (get_volume (audio l)) + release_rate l * dt) (original_volume l))
                  (snd (get_volume (audio l)))\<rparr>
         else l\<lparr>time_over_threshold := 0,
                audio := set_volume (original_volume l) (snd (get_volume (audio l))),
                is_limiting := False\<rparr>)
      else l\<lparr>time_over_threshold := 0\<rparr>)"
  by (simp add: release_def Let_def case_prod_beta)

subsection \<open>Every division has a guarded, positive denominator\<close>

lemma sustained_factor_at_ge1: "1 \<le> sustained_factor_at l"
  by (simp add: sustained_factor_at_def sustained_factor_of_def)

lemma limit_divisions_guarded:
  assumes "raw_peak > 0.001" and "potential_output > cap" and "1 \<le> sf"
  shows "list_all division_guarded (limit_divisions potential_output cap soft speed raw_peak sf)"
  using assms by (simp add: limit_divisions_def)

lemma grows_append: "trace b = trace a @ es \<Longrightarrow> list_all P es \<Longrightarrow> grows P a b"
  by (auto simp: grows_def)

lemma limit_grows:
  assumes rp: "raw_peak > 0.001" and over: "potential_output > volume_cap l"
  shows "\<exists>l'. limit raw_peak potential_output soft l = Inr l'
           \<and> grows division_guarded (audio l) (audio l')"
proof -
  let ?es = "limit_divisions potential_output (volume_cap l) soft (dampening_speed l) raw_peak
               (sustained_factor_at l)"
  let ?a = "(audio l)\<lparr>trace := trace (audio l) @ ?es\<rparr>"
  let ?v = "target_volume_at raw_peak potential_output soft l"
  have "grows division_guarded (audio l) ?a"
    by (rule grows_append [where es = ?es])
      (simp_all add: limit_divisions_guarded [OF rp over sustained_factor_at_ge1])
  moreover have "grows division_guarded ?a (set_volume ?v ?a)"
    by (rule grows_set_volume) simp
  ultimately have "grows division_guarded (audio l) (set_volume ?v ?a)"
    by (rule grows_trans)
  then show ?thesis
    by (simp add: limit_eq [OF rp over])
qed

lemma release_grows: "grows division_guarded (audio l) (audio (release now dt l))"
proof -
  have "grows division_guarded (audio l) (set_volume v (snd (get_volume (audio l))))" for v
    by (rule grows_trans [OF grows_get_volume grows_set_volume]) simp_all
  then show ?thesis
    by (simp add: release_eq grows_refl)
qed

lemma peak_then_volume_grows:
  "grows division_guarded a (snd (get_volume (snd (get_raw_peak a))))"
  by (rule grows_trans [OF grows_get_raw_peak grows_get_volume]) simp_all

lemma sample_grows: "grows division_guarded (audio l) (audio (snd (sample l)))"
  by (simp add: sample_eq peak_then_volume_grows)

lemma publish_grows: "grows division_guarded (audio l) (audio (publish l))"
  by (simp add: publish_eq peak_then_volume_grows)

lemma detect_user_change_grows:
  "grows division_guarded (audio l) (audio (detect_user_change t l))"
  by (rule grows_append [where es = "[GetMasterVolume]"])
    (simp_all add: detect_user_change_eq trace_check_user_changed)

lemma control_under:
  assumes "\<not> (fst (sample l) * original_volume l > volume_cap l \<and> fst (sample l) > 0.001)"
  shows "control now dt l = Inr (release now dt (after_sample l))"
  by (simp only: control_eq Let_def assms if_False after_sample_def)

lemma control_attack:
  assumes "fst (sample l) * original_volume l > volume_cap l \<and> fst (sample l) > 0.001"
    and "\<not> time_over_threshold l + dt \<ge> attack_time l"
  shows "control now dt l =
           Inr ((after_sample l)\<lparr>time_over_threshold := time_over_threshold l + dt,
                                  last_over_threshold_time := now\<rparr>)"
  by (simp only: control_eq Let_def assms simp_thms if_True if_False after_sample_def)

lemma control_limit:
  assumes "fst (sample l) * original_volume l > volume_cap l \<and> fst (sample l) > 0.001"
    and "time_over_threshold l + dt \<ge> attack_time l"
  shows "control now dt l =
           limit (fst (sample l)) (fst (sample l) * original_volume l) (soft_threshold_at l)
             ((after_sample l)\<lparr>time_over_threshold := time_over_threshold l + dt,
                                 last_over_threshold_time := now\<rparr>)"
  by (simp only: control_eq Let_def assms simp_thms if_True after_sample_def soft_threshold_at_def)

lemma after_sample_fields:
  "original_volume (after_sample l) = original_volume l"
  "volume_cap (after_sample l) = volume_cap l"
  "leeway_db (after_sample l) = leeway_db l"
  "time_over_threshold (after_sample l) = time_over_threshold l"
  "attack_time (after_sample l) = attack_time l"
  "is_limiting (after_sample l) = is_limiting l"
  "is_running (after_sample l) = is_running l"
  "last_over_threshold_time (after_sample l) = last_over_threshold_time l"
  "hold_time (after_sample l) = hold_time l"
  "release_rate (after_sample l) = release_rate l"
  "dampening (after_sample l) = dampening l"
  "dampening_speed (after_sample l) = dampening_speed l"
  "current_peak (after_sample l) = fst (sample l)"
  by (simp_all add: after_sample_def sample_fields)

lemma after_sample_grows: "grows division_guarded (audio l) (audio (after_sample l))"
  by (simp add: after_sample_def grows_trans [OF sample_grows grows_log_event])

lemma control_grows:
  "\<exists>l'. control now dt l = Inr l' \<and> grows division_guarded (audio l) (audio l')"
proof (cases "fst (sample l) * original_volume l > volume_cap l \<and> fst (sample l) > 0.001")
  case over: True
  define l3 where "l3 = (after_sample l)\<lparr>time_over_threshold := time_over_threshold l + dt,
                             last_over_threshold_time := now\<rparr>"
  have g3: "grows division_guarded (audio l) (audio l3)"
    using after_sample_grows [of l] by (simp add: l3_def)
  show ?thesis
  proof (cases "time_over_threshold l + dt \<ge> attack_time l")
    case True
    have rp: "fst (sample l) > 0.001" using over by blast
    have cap: "fst (sample l) * original_volume l > volume_cap l3"
      using over by (simp add: l3_def after_sample_fields)
    obtain l' where l': "limit (fst (sample l)) (fst (sample l) * original_volume l)
          (soft_threshold_at l) l3 = Inr l'"
        "grows division_guarded (audio l3) (audio l')"
      using limit_grows [OF rp cap] by blast
    have "control now dt l = Inr l'"
      using l'(1) by (simp only: control_limit [OF over True] l3_def)
    then show ?thesis
      using grows_trans [OF g3 l'(2)] by blast
  next
    case False
    have "control now dt l = Inr l3"
      by (simp only: control_attack [OF over False] l3_def)
    then show ?thesis using g3 by blast
  qed
next
  case under: False
  have "control now dt l = Inr (release now dt (after_sample l))"
    by (rule control_under [OF under])
  then show ?thesis
    using grows_trans [OF after_sample_grows release_grows] by blast
qed

lemma iteration_grows:
  "\<exists>l'. iteration now t l = Inr l' \<and> grows division_guarded (audio l) (audio l')"
proof (cases "is_running l")
  case False
  then show ?thesis by (simp add: iteration_disabled grows_refl)
next
  case True
  define l2 where "l2 = detect_user_change t (l\<lparr>last_time := now\<rparr>)"
  have g2: "grows division_guarded (audio l) (audio l2)"
    using detect_user_change_grows [of "l\<lparr>last_time := now\<rparr>" t] by (simp add: l2_def)
  show ?thesis
  proof (cases "in_user_cooldown now l2")
    case cool: True
    then show ?thesis
      using True g2 by (simp add: iteration_cooldown l2_def)
  next
    case go: False
    obtain l3 where l3: "control now (now - last_time l) l2 = Inr l3"
        "grows division_guarded (audio l2) (audio l3)"
      using control_grows by blast
    have "iteration now t l = Inr (publish l3)"
      using True go l3(1) by (simp add: iteration_control l2_def bind_e_Inr)
    then show ?thesis
      using grows_trans [OF g2 grows_trans [OF l3(2) publish_grows]] by blast
  qed
qed

lemma update_release_rate_grows:
  "\<exists>l'. update_release_rate l = Inr l' \<and> grows division_guarded (audio l) (audio l')
        \<and> release_rate l' = (if release_time l > 0 then 1 / release_time l else 10)"
proof (cases "release_time l > 0")
  case True
  then have n: "release_time l \<noteq> 0" by simp
  show ?thesis
    using True
    by (simp add: update_release_rate_def py_div_ok [OF n] bind_d_Inr grows_log_event)
next
  case False
  then show ?thesis
    by (simp add: update_release_rate_def grows_refl)
qed

lemma limiter_init_grows:
  "\<exists>l'. limiter_init s a t0 = Inr l' \<and> grows division_guarded a (audio l')"
proof -
  define l0 where "l0 =
        \<lparr>audio = snd (get_volume a), is_running = True, volume_cap = s_volume_cap s,
         original_volume = fst (get_volume a),
         current_peak = 0, current_volume = fst (get_volume a), is_limiting = False,
         last_over_threshold_time = 0, time_over_threshold = 0, peak_start_time = 0,
         attack_time = s_attack_time s, release_time = s_release_time s,
         hold_time = s_hold_time s, user_cooldown = s_user_cooldown s,
         leeway_db = s_leeway_db s, dampening = s_dampening s,
         dampening_speed = s_dampening_speed s, voice_mode = s_voice_mode s,
         release_rate = 0, ui_peak = 0, ui_volume = fst (get_volume a), last_time = t0\<rparr>"
  have init: "limiter_init s a t0 = update_release_rate l0"
    by (simp add: limiter_init_def l0_def case_prod_beta)
  have g0: "grows division_guarded a (audio l0)"
    by (simp add: l0_def grows_get_volume)
  obtain l' where "update_release_rate l0 = Inr l'"
      "grows division_guarded (audio l0) (audio l')"
    using update_release_rate_grows by blast
  then show ?thesis
    using init grows_trans [OF g0] by auto
qed

lemma run_loop_grows:
  "\<exists>l'. run_loop ts l = Inr l' \<and> grows division_guarded (audio l) (audio l')"
proof (induction ts arbitrary: l)
  case Nil
  show ?case by (simp add: grows_refl)
next
  case (Cons p ts)
  obtain now t where p: "p = (now, t)" by (cases p)
  obtain l1 where l1: "iteration now t l = Inr l1"
      "grows division_guarded (audio l) (audio l1)"
    using iteration_grows by blast
  obtain l' where l': "run_loop ts l1 = Inr l'"
      "grows division_guarded (audio l1) (audio l')"
    using Cons.IH by blast
  have "run_loop (p # ts) l = Inr l'"
    by (simp add: p l1(1) l'(1) bind_e_Inr)
  then show ?case
    using grows_trans [OF l1(2) l'(2)] by blast
qed

lemma example_limiter_eq:
  "example_limiter s =
     \<lparr>audio = \<lparr>endpoint = example_endpoint, cached_volume = 1, last_set_volume = 1,
               user_set_time = None, user_set_volume = 1,
               trace = [GetMasterVolume, GetMasterVolume]
                 @ (if s_release_time s > 0 then [Division ReleaseRate (s_release_time s)] else [])\<rparr>,
      is_running = True, volume_cap = s_volume_cap s, original_volume = 1,
      current_peak = 0, current_volume = 1, is_limiting = False,
      last_over_threshold_time = 0, time_over_threshold = 0, peak_start_time = 0,
      attack_time = s_attack_time s, release_time = s_release_time s,
      hold_time = s_hold_time s, user_cooldown = s_user_cooldown s,
      leeway_db = s_leeway_db s, dampening = s_dampening s,
      dampening_speed = s_dampening_speed s, voice_mode = s_voice_mode s,
      release_rate = (if s_release_time s > 0 then 1 / s_release_time s else 10),
      ui_peak = 0, ui_volume = 1, last_time = 0\<rparr>"
  by (simp add: example_limiter_def limiter_init_def update_release_rate_def get_volume_def
        audio_init_def example_endpoint_def log_event_def py_div_def bind_d_def Let_def)

text \<open>
  C6. No division of the controller has a zero or negative denominator. Building the
  limiter, recomputing the release rate, reading the raw peak and running any number of
  passes of the loop never raise a \<^verbatim>\<open>ZeroDivisionError\<close>, and every division they record
  satisfies the guard of
  its site, which makes its denominator positive: the release time is positive, the
  volume that normalises the peak exceeds 0.01, the constant 20, the leeway span is
  positive, the dampening speed and the raw peak exceed 0.001, and the sustained factor
  is at least 1.
\<close>

theorem divisions_guarded:
  "(\<exists>l'. update_release_rate l = Inr l' \<and> grows division_guarded (audio l) (audio l'))
   \<and> (\<exists>l'. limiter_init s a t0 = Inr l' \<and> grows division_guarded a (audio l'))
   \<and> grows division_guarded a (snd (get_raw_peak a))
   \<and> (\<exists>l'. iteration now t l = Inr l' \<and> grows division_guarded (audio l) (audio l'))
   \<and> (\<exists>l'. run_loop ts l = Inr l' \<and> grows division_guarded (audio l) (audio l'))"
proof -
  have "grows division_guarded a (snd (get_raw_peak a))"
    by (rule grows_get_raw_peak) simp_all
  moreover have "\<exists>l'. update_release_rate l = Inr l'
      \<and> grows division_guarded (audio l) (audio l')"
    using update_release_rate_grows [of l] by blast
  ultimately show ?thesis
    using limiter_init_grows iteration_grows run_loop_grows by blast
qed

lemmas eval_defs = iteration_def detect_user_change_eq check_user_changed_def get_volume_def
  get_raw_peak_def log_event_def Let_def in_user_cooldown_def example_endpoint_def control_def
  sample_def publish_def limit_def release_def py_div_def bind_d_def bind_e_def set_volume_def
  set_defaults_def toggle_def

theorem divisions_guarded_witness:
  "grows division_guarded
     (audio (example_limiter (set_defaults\<lparr>s_leeway_db := 0\<rparr>)))
     (audio (projr (iteration 0.05 0.05 (example_limiter (set_defaults\<lparr>s_leeway_db := 0\<rparr>)))))
   \<and> emitted
     (audio (example_limiter (set_defaults\<lparr>s_leeway_db := 0\<rparr>)))
     (audio (projr (iteration 0.05 0.05 (example_limiter (set_defaults\<lparr>s_leeway_db := 0\<rparr>)))))
     = [GetMasterVolume, GetPeakValue, Division PeakNormalize 1, GetMasterVolume,
        Division LeewayDb 20, Division BaseTarget (1 / 2), Division SustainedFactor 1,
        SetMasterVolume (2 / 5), GetPeakValue, Division PeakNormalize (2 / 5), GetMasterVolume]"
proof -
  let ?l = "example_limiter (set_defaults\<lparr>s_leeway_db := 0\<rparr>)"
  obtain l' where l': "iteration 0.05 0.05 ?l = Inr l'"
      "grows division_guarded (audio ?l) (audio l')"
    using divisions_guarded [of ?l set_defaults "audio_init example_endpoint" 0 "0.05" "0.05" "[]"]
    by blast
  have "grows division_guarded (audio ?l) (audio (projr (iteration 0.05 0.05 ?l)))"
    using l' by simp
  moreover have "emitted (audio ?l) (audio (projr (iteration 0.05 0.05 ?l)))
     = [GetMasterVolume, GetPeakValue, Division PeakNormalize 1, GetMasterVolume,
        Division LeewayDb 20, Division BaseTarget (1 / 2), Division SustainedFactor 1,
        SetMasterVolume (2 / 5), GetPeakValue, Division PeakNormalize (2 / 5), GetMasterVolume]"
    by (simp add: example_limiter_eq eval_defs emitted_def)
  ultimately show ?thesis by blast
qed

subsection \<open>Fields that the phases leave alone\<close>

lemma check_user_changed_fields:
  "endpoint (snd (check_user_changed t a)) = endpoint a"
  "fst (check_user_changed t a) = (\<bar>fst (get_volume a) - last_set_volume a\<bar> > 0.01)"
  "cached_volume (snd (check_user_changed t a)) = fst (get_volume a)"
  "user_set_time (snd (check_user_changed t a)) =
     (if fst (check_user_changed t a) then Some t else user_set_time a)"
  "user_set_volume (snd (check_user_changed t a)) =
     (if fst (check_user_changed t a) then fst (get_volume a) else user_set_volume a)"
  "last_set_volume (snd (check_user_changed t a)) =
     (if fst (check_user_changed t a) then fst (get_volume a) else last_set_volume a)"
  by (simp_all add: check_user_changed_def get_volume_def log_event_def Let_def)

lemma detect_user_change_fields:
  "is_running (detect_user_change t l) = is_running l"
  "volume_cap (detect_user_change t l) = volume_cap l"
  "user_cooldown (detect_user_change t l) = user_cooldown l"
  "ui_peak (detect_user_change t l) = ui_peak l"
  "ui_volume (detect_user_change t l) = ui_volume l"
  "last_time (detect_user_change t l) = last_time l"
  "last_over_threshold_time (detect_user_change t l) = last_over_threshold_time l"
  "hold_time (detect_user_change t l) = hold_time l"
  "release_rate (detect_user_change t l) = release_rate l"
  "attack_time (detect_user_change t l) = attack_time l"
  "audio (detect_user_change t l) = snd (check_user_changed t (audio l))"
  "is_limiting (detect_user_change t l) =
     (\<not> fst (check_user_changed t (audio l)) \<and> is_limiting l)"
  "time_over_threshold (detect_user_change t l) =
     (if fst (check_user_changed t (audio l)) then 0 else time_over_threshold l)"
  "original_volume (detect_user_change t l) =
     (if fst (check_user_changed t (audio l)) then fst (get_volume (audio l))
      else original_volume l)"
  by (simp_all add: detect_user_change_eq check_user_changed_fields)


lemma publish_fields:
  "time_over_threshold (publish l) = time_over_threshold l"
  "current_peak (publish l) = current_peak l"
  "is_limiting (publish l) = is_limiting l"
  "original_volume (publish l) = original_volume l"
  "ui_peak (publish l) = fst (get_raw_peak (audio l))"
  "ui_volume (publish l) = fst (get_volume (snd (get_raw_peak (audio l))))"
  "endpoint (audio (publish l)) = endpoint (audio l)"
  "last_set_volume (audio (publish l)) = last_set_volume (audio l)"
  by (simp_all add: publish_eq get_volume_fields get_raw_peak_fields)

lemma after_sample_audio:
  "endpoint (audio (after_sample l)) = endpoint (audio l)"
  "last_set_volume (audio (after_sample l)) = last_set_volume (audio l)"
  "user_set_time (audio (after_sample l)) = user_set_time (audio l)"
  "cached_volume (audio (after_sample l)) = fst (get_volume (audio l))"
  "fst (get_volume (audio (after_sample l))) = fst (get_volume (audio l))"
  by (simp_all add: after_sample_def sample_fields log_event_def get_volume_fields
      get_raw_peak_fields get_volume_value)

subsection \<open>Disabling and enabling\<close>

lemma run_loop_disabled:
  "\<not> is_running m \<Longrightarrow>
     run_loop ts m = Inr (if ts = [] then m else m\<lparr>time_over_threshold := 0\<rparr>)"
proof (induction ts arbitrary: m)
  case Nil
  show ?case by simp
next
  case (Cons p ts)
  obtain now t where p: "p = (now, t)" by (cases p)
  have "run_loop ts (m\<lparr>time_over_threshold := 0\<rparr>)
          = Inr (if ts = [] then m\<lparr>time_over_threshold := 0\<rparr>
                 else m\<lparr>time_over_threshold := 0\<rparr>\<lparr>time_over_threshold := 0\<rparr>)"
    using Cons.prems by (intro Cons.IH) simp
  then show ?case
    using Cons.prems by (simp add: p iteration_disabled bind_e_Inr)
qed

text \<open>
  C8, as amended. Disabling the limiter, letting any number of passes of the loop go by
  and enabling it again leaves the whole limiter as it was, the audio controller and the
  endpoint included, except that the first disabled pass resets the time over threshold
  to 0. No call reaches the endpoint in between: the trace does not grow, so the volume
  is neither read nor written while disabled.
\<close>

theorem disable_enable:
  assumes "is_running l"
  shows "\<exists>l'. run_loop ts (toggle l) = Inr l'
           \<and> toggle l' = (if ts = [] then l else l\<lparr>time_over_threshold := 0\<rparr>)
           \<and> original_volume (toggle l') = original_volume l
           \<and> is_limiting (toggle l') = is_limiting l
           \<and> last_set_volume (audio (toggle l')) = last_set_volume (audio l)
           \<and> time_over_threshold (toggle l') = (if ts = [] then time_over_threshold l else 0)
           \<and> audio l' = audio l
           \<and> emitted (audio l) (audio l') = []"
proof -
  define l' where "l' = (if ts = [] then toggle l else (toggle l)\<lparr>time_over_threshold := 0\<rparr>)"
  have off: "\<not> is_running (toggle l)" using assms by (simp add: toggle_def)
  have run: "run_loop ts (toggle l) = Inr l'"
    by (simp only: run_loop_disabled [OF off] l'_def)
  have rest: "toggle l' = (if ts = [] then l else l\<lparr>time_over_threshold := 0\<rparr>)
           \<and> original_volume (toggle l') = original_volume l
           \<and> is_limiting (toggle l') = is_limiting l
           \<and> last_set_volume (audio (toggle l')) = last_set_volume (audio l)
           \<and> time_over_threshold (toggle l') = (if ts = [] then time_over_threshold l else 0)
           \<and> audio l' = audio l
           \<and> emitted (audio l) (audio l') = []"
    using assms by (simp add: l'_def toggle_def emitted_def)
  show ?thesis using run rest by blast
qed

lemma attacking_limiter_eq:
  "attacking_limiter =
     \<lparr>audio = \<lparr>endpoint = example_endpoint, cached_volume = 1, last_set_volume = 1,
               user_set_time = None, user_set_volume = 1,
               trace = [GetMasterVolume, GetMasterVolume, Division ReleaseRate (1 / 2),
                        GetMasterVolume, GetPeakValue, Division PeakNormalize 1,
                        GetMasterVolume, Division LeewayDb 20, GetPeakValue,
                        Division PeakNormalize 1, GetMasterVolume]\<rparr>,
      is_running = True, volume_cap = 1 / 5, original_volume = 1,
      current_peak = 1 / 2, current_volume = 1, is_limiting = False,
      last_over_threshold_time = 1 / 50, time_over_threshold = 1 / 50, peak_start_time = 0,
      attack_time = 1 / 20, release_time = 1 / 2, hold_time = 3 / 20, user_cooldown = 2,
      leeway_db = 3, dampening = 1, dampening_speed = 0, voice_mode = False,
      release_rate = 2, ui_peak = 1 / 2, ui_volume = 1, last_time = 1 / 50\<rparr>"
  by (simp add: attacking_limiter_def example_limiter_eq eval_defs)

theorem disable_enable_witness:
  "is_running attacking_limiter
   \<and> (\<exists>l'. run_loop [(0.07, 0.07)] (toggle attacking_limiter) = Inr l'
         \<and> toggle l' = attacking_limiter\<lparr>time_over_threshold := 0\<rparr>
         \<and> original_volume (toggle l') = 1
         \<and> emitted (audio attacking_limiter) (audio l') = [])"
proof -
  have r: "is_running attacking_limiter"
    by (simp add: attacking_limiter_eq)
  have o: "original_volume attacking_limiter = 1"
    by (simp add: attacking_limiter_eq)
  show ?thesis
    using r o disable_enable [OF r, of "[(0.07, 0.07)]"] by auto
qed

text \<open>
  The claim as stated fails: the time over threshold, 20 ms before disabling, is 0 after
  one disabled pass and enabling.
\<close>

theorem disable_enable_counterexample:
  "is_running attacking_limiter
   \<and> time_over_threshold attacking_limiter = 1 / 50
   \<and> run_loop [(0.07, 0.07)] (toggle attacking_limiter)
       = Inr ((toggle attacking_limiter)\<lparr>time_over_threshold := 0\<rparr>)
   \<and> time_over_threshold (toggle ((toggle attacking_limiter)\<lparr>time_over_threshold := 0\<rparr>)) = 0"
  by (simp add: attacking_limiter_eq toggle_def iteration_def bind_e_def)

subsection \<open>The range of the leeway factor\<close>

lemma leeway_in_range_bound:
  assumes "leeway_db l \<le> 6000"
  shows "leeway_factor_in_range l"
proof -
  have "(10::real) powr (leeway_db l / 20) \<le> 10 powr 300"
    using assms by (intro powr_mono) simp_all
  also have "(10::real) powr 300 = 10 ^ 300"
    by (simp add: powr_numeral)
  also have "(10::real) ^ 300 \<le> float_max"
    by (simp add: float_max_def)
  finally show ?thesis
    by (simp add: leeway_factor_in_range_def)
qed

lemma leeway_out_of_range: "\<not> leeway_factor_in_range (l\<lparr>leeway_db := 8000\<rparr>)"
proof -
  have "(10::real) powr (8000 / 20) = 10 ^ 400"
    by (simp add: powr_numeral)
  moreover have "float_max < (10::real) ^ 400"
    by (simp add: float_max_def)
  ultimately show ?thesis
    by (simp add: leeway_factor_in_range_def)
qed

subsection \<open>Telemetry\<close>

text \<open>
  C7, as amended. A pass that is neither disabled nor skipped by the user cooldown, of a
  limiter whose leeway factor is in the range of the floats, ends by publishing the
  telemetry: the raw peak and the volume that it reads afresh once the control step is
  done. A disabled pass and a pass in the user cooldown publish nothing: they leave both
  telemetry values as they were.
\<close>

theorem telemetry_published:
  "(is_running l \<and> \<not> in_user_cooldown now (detect_user_change t (l\<lparr>last_time := now\<rparr>))
      \<and> leeway_factor_in_range l \<longrightarrow>
      (\<exists>l3. control now (now - last_time l) (detect_user_change t (l\<lparr>last_time := now\<rparr>)) = Inr l3
         \<and> iteration now t l = Inr (publish l3)
         \<and> ui_peak (publish l3) = fst (get_raw_peak (audio l3))
         \<and> ui_volume (publish l3) = fst (get_volume (snd (get_raw_peak (audio l3))))))
   \<and> (\<not> is_running l \<or> in_user_cooldown now (detect_user_change t (l\<lparr>last_time := now\<rparr>)) \<longrightarrow>
      (\<exists>l'. iteration now t l = Inr l' \<and> ui_peak l' = ui_peak l \<and> ui_volume l' = ui_volume l
         \<and> list_all no_peak_read_or_write (emitted (audio l) (audio l'))))"
proof (intro conjI impI)
  assume go: "is_running l \<and> \<not> in_user_cooldown now (detect_user_change t (l\<lparr>last_time := now\<rparr>))
      \<and> leeway_factor_in_range l"
  obtain l3 where l3: "control now (now - last_time l)
      (detect_user_change t (l\<lparr>last_time := now\<rparr>)) = Inr l3"
    using control_grows by blast
  have "iteration now t l = Inr (publish l3)"
    using go l3 by (simp add: iteration_control bind_e_Inr)
  then show "\<exists>l3. control now (now - last_time l) (detect_user_change t (l\<lparr>last_time := now\<rparr>)) = Inr l3
         \<and> iteration now t l = Inr (publish l3)
         \<and> ui_peak (publish l3) = fst (get_raw_peak (audio l3))
         \<and> ui_volume (publish l3) = fst (get_volume (snd (get_raw_peak (audio l3))))"
    using l3 by (simp add: publish_fields)
next
  assume gate: "\<not> is_running l \<or> in_user_cooldown now (detect_user_change t (l\<lparr>last_time := now\<rparr>))"
  show "\<exists>l'. iteration now t l = Inr l' \<and> ui_peak l' = ui_peak l \<and> ui_volume l' = ui_volume l
         \<and> list_all no_peak_read_or_write (emitted (audio l) (audio l'))"
  proof (cases "is_running l")
    case False
    then show ?thesis
      by (simp add: iteration_disabled emitted_def)
  next
    case True
    then have "in_user_cooldown now (detect_user_change t (l\<lparr>last_time := now\<rparr>))"
      using gate by blast
    then show ?thesis
      using True
      by (simp add: iteration_cooldown detect_user_change_fields trace_check_user_changed
          emitted_def)
  qed
qed

theorem telemetry_published_witness:
  "is_running (example_limiter set_defaults)
   \<and> \<not> in_user_cooldown 0.02
         (detect_user_change 0.02 ((example_limiter set_defaults)\<lparr>last_time := 0.02\<rparr>))
   \<and> leeway_factor_in_range (example_limiter set_defaults)
   \<and> ui_peak (projr (iteration 0.02 0.02 (example_limiter set_defaults))) = 1 / 2
   \<and> ui_volume (projr (iteration 0.02 0.02 (example_limiter set_defaults))) = 1
   \<and> \<not> is_running (toggle (example_limiter set_defaults))
   \<and> ui_peak (projr (iteration 0.02 0.02 (toggle (example_limiter set_defaults)))) = 0"
proof -
  let ?l = "example_limiter set_defaults"
  have r: "is_running ?l \<and> \<not> in_user_cooldown 0.02 (detect_user_change 0.02 (?l\<lparr>last_time := 0.02\<rparr>))"
    by (simp add: example_limiter_eq eval_defs)
  have rng: "leeway_factor_in_range ?l"
    by (rule leeway_in_range_bound) (simp add: example_limiter_eq set_defaults_def)
  obtain l3 where l3: "iteration 0.02 0.02 ?l = Inr (publish l3)"
    using telemetry_published [of ?l "0.02" "0.02"] r rng by blast
  have off: "\<not> is_running (toggle ?l)"
    by (simp add: example_limiter_eq toggle_def)
  obtain l' where l': "iteration 0.02 0.02 (toggle ?l) = Inr l'" "ui_peak l' = ui_peak (toggle ?l)"
    using telemetry_published [of "toggle ?l" "0.02" "0.02"] off by blast
  have u: "ui_peak (toggle ?l) = 0"
    by (simp add: example_limiter_eq toggle_def)
  have e: "iteration 0.02 0.02 ?l = Inr attacking_limiter"
    by (simp add: attacking_limiter_eq example_limiter_eq eval_defs)
  show ?thesis
    using r rng off l' u e by (simp add: attacking_limiter_eq)
qed

text \<open>
  The claim as stated fails on a disabled pass: the endpoint's raw peak is one half, the
  telemetry still shows the 0 it was initialised with, and the pass makes no call.
\<close>

theorem telemetry_counterexample:
  "\<not> is_running (toggle (example_limiter set_defaults))
   \<and> iteration 0.02 0.02 (toggle (example_limiter set_defaults))
       = Inr (toggle (example_limiter set_defaults))
   \<and> ui_peak (toggle (example_limiter set_defaults)) = 0
   \<and> fst (get_raw_peak (audio (toggle (example_limiter set_defaults)))) = 1 / 2"
  by (simp add: example_limiter_eq eval_defs)

subsection \<open>A failed read of the peak meter\<close>




subsection \<open>The user's own volume change\<close>

lemma in_user_cooldown_iff:
  "in_user_cooldown now l =
     (\<exists>x. user_set_time (audio l) = Some x \<and> x \<noteq> 0 \<and> now - x < user_cooldown l)"
  by (simp add: in_user_cooldown_def split: option.splits)

lemma cooldown_pass:
  assumes "in_user_cooldown now (detect_user_change t (l\<lparr>last_time := now\<rparr>))"
  shows "\<exists>l'. iteration now t l = Inr l'
           \<and> list_all no_peak_read_or_write (emitted (audio l) (audio l'))"
proof (cases "is_running l")
  case False
  then show ?thesis by (simp add: iteration_disabled emitted_def)
next
  case True
  then show ?thesis
    using assms
    by (simp add: iteration_cooldown detect_user_change_fields trace_check_user_changed
        emitted_def)
qed

text \<open>
  C3. A pass of the running limiter that finds the endpoint's volume \<open>v\<close> more than 0.01
  away from the last written volume makes \<open>v\<close> the original volume, clears the limiting
  flag and the time over threshold, and records the time \<open>t\<close> of the detection; when
  that time is within the cooldown of the pass (the clock reads \<open>t\<close> not before \<open>now\<close>,
  and the cooldown is positive), the pass ends there. And every pass within the user
  cooldown of a detection at \<open>t0\<close> reads no peak and writes no volume, whatever the
  signal: \<open>u\<close> is the recorded time, \<open>t0\<close> or a later detection. Clock readings are
  positive and do not decrease.
\<close>

theorem user_override:
  "(is_running l \<and> \<bar>fst (get_volume (audio l)) - last_set_volume (audio l)\<bar> > 0.01 \<longrightarrow>
      original_volume (detect_user_change t (l\<lparr>last_time := now\<rparr>)) = fst (get_volume (audio l))
      \<and> \<not> is_limiting (detect_user_change t (l\<lparr>last_time := now\<rparr>))
      \<and> time_over_threshold (detect_user_change t (l\<lparr>last_time := now\<rparr>)) = 0
      \<and> user_set_time (audio (detect_user_change t (l\<lparr>last_time := now\<rparr>))) = Some t
      \<and> (0 < t \<and> now \<le> t \<and> 0 < user_cooldown l \<longrightarrow>
           iteration now t l = Inr (detect_user_change t (l\<lparr>last_time := now\<rparr>))
           \<and> emitted (audio l) (audio (detect_user_change t (l\<lparr>last_time := now\<rparr>)))
               = [GetMasterVolume]))
   \<and> (user_set_time (audio l) = Some u \<and> 0 < t0 \<and> t0 \<le> u \<and> t0 \<le> t
        \<and> now - t0 < user_cooldown l \<longrightarrow>
      (\<exists>l'. iteration now t l = Inr l'
         \<and> list_all no_peak_read_or_write (emitted (audio l) (audio l'))))"
proof (intro conjI impI)
  assume h: "is_running l \<and> \<bar>fst (get_volume (audio l)) - last_set_volume (audio l)\<bar> > 0.01"
  then have ch: "fst (check_user_changed t (audio (l\<lparr>last_time := now\<rparr>)))"
    by (simp add: check_user_changed_fields)
  show "original_volume (detect_user_change t (l\<lparr>last_time := now\<rparr>)) = fst (get_volume (audio l))"
    using ch by (simp add: detect_user_change_fields)
  show "\<not> is_limiting (detect_user_change t (l\<lparr>last_time := now\<rparr>))"
    using ch by (simp add: detect_user_change_fields)
  show "time_over_threshold (detect_user_change t (l\<lparr>last_time := now\<rparr>)) = 0"
    using ch by (simp add: detect_user_change_fields)
  show st: "user_set_time (audio (detect_user_change t (l\<lparr>last_time := now\<rparr>))) = Some t"
    using ch by (simp add: detect_user_change_fields check_user_changed_fields)
  assume c: "0 < t \<and> now \<le> t \<and> 0 < user_cooldown l"
  have cool: "in_user_cooldown now (detect_user_change t (l\<lparr>last_time := now\<rparr>))"
    using c ch
    by (simp add: in_user_cooldown_iff detect_user_change_fields check_user_changed_fields)
  show "iteration now t l = Inr (detect_user_change t (l\<lparr>last_time := now\<rparr>))"
    using h cool by (simp add: iteration_cooldown)
  show "emitted (audio l) (audio (detect_user_change t (l\<lparr>last_time := now\<rparr>)))
               = [GetMasterVolume]"
    by (simp add: detect_user_change_fields trace_check_user_changed emitted_def)
next
  assume h: "user_set_time (audio l) = Some u \<and> 0 < t0 \<and> t0 \<le> u \<and> t0 \<le> t
        \<and> now - t0 < user_cooldown l"
  have "in_user_cooldown now (detect_user_change t (l\<lparr>last_time := now\<rparr>))"
    using h
    by (simp add: in_user_cooldown_iff detect_user_change_fields check_user_changed_fields)
  then show "\<exists>l'. iteration now t l = Inr l'
         \<and> list_all no_peak_read_or_write (emitted (audio l) (audio l'))"
    by (rule cooldown_pass)
qed

theorem user_override_witness:
  "is_running user_moved_limiter
   \<and> \<bar>fst (get_volume (audio user_moved_limiter)) - last_set_volume (audio user_moved_limiter)\<bar>
       > 0.01
   \<and> (\<exists>l1. iteration 0.04 0.04 user_moved_limiter = Inr l1
         \<and> original_volume l1 = 1 / 2 \<and> \<not> is_limiting l1 \<and> time_over_threshold l1 = 0
         \<and> user_set_time (audio l1) = Some 0.04
         \<and> (\<exists>l2. iteration 0.06 0.06 l1 = Inr l2
               \<and> list_all no_peak_read_or_write (emitted (audio l1) (audio l2))))"
proof -
  define l1 where "l1 = detect_user_change 0.04 (user_moved_limiter\<lparr>last_time := 0.04\<rparr>)"
  have h: "is_running user_moved_limiter
     \<and> \<bar>fst (get_volume (audio user_moved_limiter)) - last_set_volume (audio user_moved_limiter)\<bar>
         > 0.01"
    by (simp add: user_moved_limiter_def attacking_limiter_eq eval_defs)
  have v: "fst (get_volume (audio user_moved_limiter)) = 1 / 2"
    by (simp add: user_moved_limiter_def attacking_limiter_eq eval_defs)
  have c: "(0::real) < 0.04 \<and> (0.04::real) \<le> 0.04 \<and> 0 < user_cooldown user_moved_limiter"
    by (simp add: user_moved_limiter_def attacking_limiter_eq)
  have first: "original_volume l1 = 1 / 2 \<and> \<not> is_limiting l1 \<and> time_over_threshold l1 = 0
      \<and> user_set_time (audio l1) = Some 0.04 \<and> iteration 0.04 0.04 user_moved_limiter = Inr l1"
    using user_override [of user_moved_limiter "0.04" "0.04" 0 0] h v c
    unfolding l1_def by simp
  have c1: "user_cooldown l1 = 2"
    by (simp add: l1_def detect_user_change_fields user_moved_limiter_def attacking_limiter_eq)
  have "\<exists>l2. iteration 0.06 0.06 l1 = Inr l2
               \<and> list_all no_peak_read_or_write (emitted (audio l1) (audio l2))"
    using user_override [of l1 "0.06" "0.06" "0.04" "0.04"] first c1 by simp
  then show ?thesis
    using h first by blast
qed

subsection \<open>The volume writes of a pass\<close>

lemma volume_writes_append: "volume_writes (es @ fs) = volume_writes es @ volume_writes fs"
  by (induction es rule: volume_writes.induct) simp_all

lemma volume_writes_none: "list_all (\<lambda>e. \<not> is_volume_write e) es \<Longrightarrow> volume_writes es = []"
  by (induction es rule: volume_writes.induct) simp_all

lemma writes_between:
  assumes "grows (\<lambda>e. \<not> is_volume_write e) a b" and "trace c = trace b @ es"
    and "grows (\<lambda>e. \<not> is_volume_write e) c d"
  shows "volume_writes (emitted a d) = volume_writes es"
proof -
  obtain xs where xs: "trace b = trace a @ xs" "list_all (\<lambda>e. \<not> is_volume_write e) xs"
    using assms(1) by (auto simp: grows_def)
  obtain ys where ys: "trace d = trace c @ ys" "list_all (\<lambda>e. \<not> is_volume_write e) ys"
    using assms(3) by (auto simp: grows_def)
  have "emitted a d = xs @ es @ ys"
    by (simp add: emitted_def xs(1) ys(1) assms(2))
  then show ?thesis
    by (simp add: volume_writes_append volume_writes_none xs(2) ys(2))
qed

lemma no_write_peak_then_volume:
  "grows (\<lambda>e. \<not> is_volume_write e) a (snd (get_volume (snd (get_raw_peak a))))"
  by (rule grows_trans [OF grows_get_raw_peak grows_get_volume]) simp_all

lemma no_write_after_sample:
  "grows (\<lambda>e. \<not> is_volume_write e) (audio l) (audio (after_sample l))"
proof -
  have "grows (\<lambda>e. \<not> is_volume_write e) (audio l) (audio (snd (sample l)))"
    by (simp add: sample_eq no_write_peak_then_volume)
  then show ?thesis
    by (simp add: after_sample_def grows_trans [OF _ grows_log_event])
qed

lemma no_write_publish: "grows (\<lambda>e. \<not> is_volume_write e) (audio l) (audio (publish l))"
  by (simp add: publish_eq no_write_peak_then_volume)

lemma no_write_detect:
  "grows (\<lambda>e. \<not> is_volume_write e) (audio l) (audio (detect_user_change t l))"
  by (rule grows_append [where es = "[GetMasterVolume]"])
    (simp_all add: detect_user_change_eq trace_check_user_changed)

lemma trace_release:
  "trace (audio (release now dt l)) =
     trace (audio l) @
       (if is_limiting l \<and> now - last_over_threshold_time l > hold_time l then
          [GetMasterVolume,
           SetMasterVolume (max 0 (min 1
             (if fst (get_volume (audio l)) < original_volume l - 0.005
              then min (fst (get_volume (audio l)) + release_rate l * dt) (original_volume l)
              else original_volume l)))]
        else [])"
  by (simp add: release_eq trace_set_volume trace_get_volume)

lemma is_limiting_release:
  "is_limiting (release now dt l) =
     (is_limiting l \<and> (now - last_over_threshold_time l > hold_time l \<longrightarrow>
        fst (get_volume (audio l)) < original_volume l - 0.005))"
  by (auto simp: release_eq)

text \<open>A pass that reaches the branch under the threshold: what it returns and writes.\<close>

lemma under_threshold_pass:
  assumes run: "is_running l"
    and l2: "l2 = detect_user_change t (l\<lparr>last_time := now\<rparr>)"
    and go: "\<not> in_user_cooldown now l2"
    and under: "\<not> (fst (sample l2) * original_volume l2 > volume_cap l2 \<and> fst (sample l2) > 0.001)"
  shows "iteration now t l = Inr (publish (release now (now - last_time l) (after_sample l2)))"
    and "volume_writes (emitted (audio l)
           (audio (publish (release now (now - last_time l) (after_sample l2))))) =
         (if is_limiting l2 \<and> now - last_over_threshold_time l2 > hold_time l2 then
            [max 0 (min 1
               (if fst (get_volume (audio l2)) < original_volume l2 - 0.005
                then min (fst (get_volume (audio l2)) + release_rate l2 * (now - last_time l))
                       (original_volume l2)
                else original_volume l2))]
          else [])"
    and "is_limiting (publish (release now (now - last_time l) (after_sample l2))) =
         (is_limiting l2 \<and> (now - last_over_threshold_time l2 > hold_time l2 \<longrightarrow>
            fst (get_volume (audio l2)) < original_volume l2 - 0.005))"
proof -
  let ?r = "release now (now - last_time l) (after_sample l2)"
  have c: "control now (now - last_time l) l2 = Inr ?r"
    by (rule control_under [OF under])
  show "iteration now t l = Inr (publish ?r)"
    using run go c by (simp add: iteration_control l2 [symmetric] bind_e_Inr)
  have g1: "grows (\<lambda>e. \<not> is_volume_write e) (audio l) (audio (after_sample l2))"
    using grows_trans [OF no_write_detect no_write_after_sample, of "l\<lparr>last_time := now\<rparr>" t]
    by (simp add: l2)
  show "volume_writes (emitted (audio l) (audio (publish ?r))) =
         (if is_limiting l2 \<and> now - last_over_threshold_time l2 > hold_time l2 then
            [max 0 (min 1
               (if fst (get_volume (audio l2)) < original_volume l2 - 0.005
                then min (fst (get_volume (audio l2)) + release_rate l2 * (now - last_time l))
                       (original_volume l2)
                else original_volume l2))]
          else [])"
    by (simp add: writes_between [OF g1 trace_release no_write_publish]
        after_sample_fields after_sample_audio)
  show "is_limiting (publish ?r) =
         (is_limiting l2 \<and> (now - last_over_threshold_time l2 > hold_time l2 \<longrightarrow>
            fst (get_volume (audio l2)) < original_volume l2 - 0.005))"
    by (simp add: publish_fields is_limiting_release after_sample_fields after_sample_audio)
qed

subsection \<open>Hold and release\<close>

text \<open>
  C4. Take a pass of the running limiter that is not in the user cooldown, whose sample is
  under the threshold, and that is limiting when the test is made (\<open>l2\<close> is the limiter
  after the check for a user change). Write \<open>cur\<close> for the volume the endpoint reports and
  \<open>dt\<close> for the time since the previous pass. Within the hold time of the last loud
  sample the pass writes no volume and stays limiting. After it, if \<open>cur\<close> is more than
  0.005 below the original volume the pass writes \<open>cur + release_rate * dt\<close>, capped at
  the original volume (and clamped by \<open>set_volume\<close>, which changes nothing for volumes
  between 0 and 1), and stays limiting; otherwise, in particular when \<open>cur\<close> is within
  0.005 of the original volume, it writes the original volume and stops limiting. The
  release rate that \<open>update_release_rate\<close> stores is \<open>1 / release_time\<close> for a positive
  release time and 10 otherwise.
\<close>

theorem hold_and_release:
  assumes run: "is_running l"
    and l2: "l2 = detect_user_change t (l\<lparr>last_time := now\<rparr>)"
    and go: "\<not> in_user_cooldown now l2"
    and under: "\<not> (fst (sample l2) * original_volume l2 > volume_cap l2 \<and> fst (sample l2) > 0.001)"
    and lim: "is_limiting l2"
    and cur: "cur = fst (get_volume (audio l2))"
    and dt: "dt = now - last_time l"
  shows "(\<exists>l'. iteration now t l = Inr l'
      \<and> (now - last_over_threshold_time l2 \<le> hold_time l2 \<longrightarrow>
           volume_writes (emitted (audio l) (audio l')) = [] \<and> is_limiting l')
      \<and> (now - last_over_threshold_time l2 > hold_time l2 \<and> cur < original_volume l2 - 0.005 \<longrightarrow>
           volume_writes (emitted (audio l) (audio l'))
             = [max 0 (min 1 (min (cur + release_rate l * dt) (original_volume l2)))]
           \<and> is_limiting l')
      \<and> (now - last_over_threshold_time l2 > hold_time l2 \<and> cur < original_volume l2 - 0.005
           \<and> 0 \<le> cur \<and> 0 \<le> release_rate l * dt \<and> original_volume l2 \<le> 1 \<longrightarrow>
           volume_writes (emitted (audio l) (audio l'))
             = [min (cur + release_rate l * dt) (original_volume l2)])
      \<and> (now - last_over_threshold_time l2 > hold_time l2
           \<and> \<not> cur < original_volume l2 - 0.005 \<longrightarrow>
           volume_writes (emitted (audio l) (audio l')) = [max 0 (min 1 (original_volume l2))]
           \<and> \<not> is_limiting l')
      \<and> (now - last_over_threshold_time l2 > hold_time l2
           \<and> \<bar>cur - original_volume l2\<bar> \<le> 0.005
           \<and> 0 \<le> original_volume l2 \<and> original_volume l2 \<le> 1 \<longrightarrow>
           volume_writes (emitted (audio l) (audio l')) = [original_volume l2]
           \<and> \<not> is_limiting l'))
    \<and> (\<exists>m. update_release_rate l = Inr m
          \<and> release_rate m = (if release_time l > 0 then 1 / release_time l else 10))"
proof -
  let ?l' = "publish (release now (now - last_time l) (after_sample l2))"
  note pass = under_threshold_pass [OF run l2 go under]
  have rate: "release_rate l2 = release_rate l"
    by (simp add: l2 detect_user_change_fields)
  have w: "volume_writes (emitted (audio l) (audio ?l')) =
         (if now - last_over_threshold_time l2 > hold_time l2 then
            [max 0 (min 1
               (if cur < original_volume l2 - 0.005
                then min (cur + release_rate l * dt) (original_volume l2)
                else original_volume l2))]
          else [])"
    using lim by (simp add: pass(2) rate cur dt)
  have s: "is_limiting ?l' =
         (now - last_over_threshold_time l2 > hold_time l2 \<longrightarrow> cur < original_volume l2 - 0.005)"
    using lim by (simp add: pass(3) cur)
  have first: "\<exists>l'. iteration now t l = Inr l'
      \<and> (now - last_over_threshold_time l2 \<le> hold_time l2 \<longrightarrow>
           volume_writes (emitted (audio l) (audio l')) = [] \<and> is_limiting l')
      \<and> (now - last_over_threshold_time l2 > hold_time l2 \<and> cur < original_volume l2 - 0.005 \<longrightarrow>
           volume_writes (emitted (audio l) (audio l'))
             = [max 0 (min 1 (min (cur + release_rate l * dt) (original_volume l2)))]
           \<and> is_limiting l')
      \<and> (now - last_over_threshold_time l2 > hold_time l2 \<and> cur < original_volume l2 - 0.005
           \<and> 0 \<le> cur \<and> 0 \<le> release_rate l * dt \<and> original_volume l2 \<le> 1 \<longrightarrow>
           volume_writes (emitted (audio l) (audio l'))
             = [min (cur + release_rate l * dt) (original_volume l2)])
      \<and> (now - last_over_threshold_time l2 > hold_time l2
           \<and> \<not> cur < original_volume l2 - 0.005 \<longrightarrow>
           volume_writes (emitted (audio l) (audio l')) = [max 0 (min 1 (original_volume l2))]
           \<and> \<not> is_limiting l')
      \<and> (now - last_over_threshold_time l2 > hold_time l2
           \<and> \<bar>cur - original_volume l2\<bar> \<le> 0.005
           \<and> 0 \<le> original_volume l2 \<and> original_volume l2 \<le> 1 \<longrightarrow>
           volume_writes (emitted (audio l) (audio l')) = [original_volume l2]
           \<and> \<not> is_limiting l')"
  proof (intro exI [of _ ?l'] conjI impI)
    show "iteration now t l = Inr ?l'" by (rule pass(1))
  qed (use w s in \<open>auto simp add: min_def max_def\<close>)
  show ?thesis
    using first update_release_rate_grows [of l] by blast
qed

lemma limiting_limiter_eq:
  "limiting_limiter =
     \<lparr>audio = \<lparr>endpoint = example_endpoint\<lparr>master_volume := 2 / 5\<rparr>,
               cached_volume = 2 / 5, last_set_volume = 2 / 5,
               user_set_time = None, user_set_volume = 1,
               trace = [GetMasterVolume, GetMasterVolume, Division ReleaseRate (1 / 2),
                        GetMasterVolume, GetPeakValue, Division PeakNormalize 1,
                        GetMasterVolume, Division LeewayDb 20, Division BaseTarget (1 / 2),
                        Division SustainedFactor 1, SetMasterVolume (2 / 5), GetPeakValue,
                        Division PeakNormalize (2 / 5), GetMasterVolume]\<rparr>,
      is_running = True, volume_cap = 1 / 5, original_volume = 1,
      current_peak = 1 / 2, current_volume = 1, is_limiting = True,
      last_over_threshold_time = 1 / 20, time_over_threshold = 1 / 20, peak_start_time = 0,
      attack_time = 1 / 20, release_time = 1 / 2, hold_time = 3 / 20, user_cooldown = 2,
      leeway_db = 0, dampening = 1, dampening_speed = 0, voice_mode = False,
      release_rate = 2, ui_peak = 1, ui_volume = 2 / 5, last_time = 1 / 20\<rparr>"
  by (simp add: limiting_limiter_def example_limiter_eq eval_defs)

theorem hold_and_release_witness:
  "is_running quiet_limiter \<and> is_limiting quiet_limiter
   \<and> (\<exists>l'. iteration 0.07 0.07 quiet_limiter = Inr l'
         \<and> volume_writes (emitted (audio quiet_limiter) (audio l')) = [] \<and> is_limiting l')
   \<and> (\<exists>l'. iteration 0.25 0.25 quiet_limiter = Inr l'
         \<and> volume_writes (emitted (audio quiet_limiter) (audio l')) = [4 / 5] \<and> is_limiting l')
   \<and> (\<exists>l'. iteration 0.25 0.25 restored_limiter = Inr l'
         \<and> volume_writes (emitted (audio restored_limiter) (audio l')) = [1]
         \<and> \<not> is_limiting l')"
proof -
  have q: "is_running quiet_limiter" "is_limiting quiet_limiter"
      "last_time quiet_limiter = 1 / 20" "release_rate quiet_limiter = 2"
    by (simp_all add: quiet_limiter_def limiting_limiter_eq)
  have r: "is_running restored_limiter" "last_time restored_limiter = 1 / 20"
      "release_rate restored_limiter = 2"
    by (simp_all add: restored_limiter_def quiet_limiter_def limiting_limiter_eq)
  have f: "is_limiting (detect_user_change now (quiet_limiter\<lparr>last_time := now\<rparr>))"
      "\<not> in_user_cooldown now (detect_user_change now (quiet_limiter\<lparr>last_time := now\<rparr>))"
      "fst (sample (detect_user_change now (quiet_limiter\<lparr>last_time := now\<rparr>))) = 0"
      "last_over_threshold_time (detect_user_change now (quiet_limiter\<lparr>last_time := now\<rparr>))
          = 1 / 20"
      "hold_time (detect_user_change now (quiet_limiter\<lparr>last_time := now\<rparr>)) = 3 / 20"
      "original_volume (detect_user_change now (quiet_limiter\<lparr>last_time := now\<rparr>)) = 1"
      "fst (get_volume (audio (detect_user_change now (quiet_limiter\<lparr>last_time := now\<rparr>))))
          = 2 / 5" for now
    by (simp_all add: quiet_limiter_def limiting_limiter_eq eval_defs)
  have g: "is_limiting (detect_user_change now (restored_limiter\<lparr>last_time := now\<rparr>))"
      "\<not> in_user_cooldown now (detect_user_change now (restored_limiter\<lparr>last_time := now\<rparr>))"
      "fst (sample (detect_user_change now (restored_limiter\<lparr>last_time := now\<rparr>))) = 0"
      "last_over_threshold_time (detect_user_change now (restored_limiter\<lparr>last_time := now\<rparr>))
          = 1 / 20"
      "hold_time (detect_user_change now (restored_limiter\<lparr>last_time := now\<rparr>)) = 3 / 20"
      "original_volume (detect_user_change now (restored_limiter\<lparr>last_time := now\<rparr>)) = 1"
      "fst (get_volume (audio (detect_user_change now (restored_limiter\<lparr>last_time := now\<rparr>))))
          = 499 / 500" for now
    by (simp_all add: restored_limiter_def quiet_limiter_def limiting_limiter_eq eval_defs)
  have hold: "\<exists>l'. iteration 0.07 0.07 quiet_limiter = Inr l'
         \<and> volume_writes (emitted (audio quiet_limiter) (audio l')) = [] \<and> is_limiting l'"
    using hold_and_release [of quiet_limiter _ "0.07" "0.07", OF _ refl _ _ _ refl refl]
    by (auto simp add: q f)
  have ramp: "\<exists>l'. iteration 0.25 0.25 quiet_limiter = Inr l'
         \<and> volume_writes (emitted (audio quiet_limiter) (audio l')) = [4 / 5] \<and> is_limiting l'"
    using hold_and_release [of quiet_limiter _ "0.25" "0.25", OF _ refl _ _ _ refl refl]
    by (auto simp add: q f)
  have last_step: "\<exists>l'. iteration 0.25 0.25 restored_limiter = Inr l'
         \<and> volume_writes (emitted (audio restored_limiter) (audio l')) = [1]
         \<and> \<not> is_limiting l'"
    using hold_and_release [of restored_limiter _ "0.25" "0.25", OF _ refl _ _ _ refl refl]
    by (auto simp add: r g)
  show ?thesis
    using q hold ramp last_step by blast
qed

subsection \<open>The target volume as a function of the potential output\<close>

lemma three_db_bounds: "(5 / 4 :: real) < 10 powr (3 / 20)"
proof (rule ccontr)
  assume "\<not> (5 / 4 :: real) < 10 powr (3 / 20)"
  then have le: "(10::real) powr (3 / 20) \<le> 5 / 4" by simp
  have pos: "(0::real) \<le> 10 powr (3 / 20)" by simp
  have "((10::real) powr (3 / 20)) ^ 20 \<le> (5 / 4) ^ 20"
    by (rule power_mono [OF le pos])
  moreover have "((10::real) powr (3 / 20)) ^ 20 = 10 powr 3"
    by (simp add: powr_powr flip: powr_numeral)
  moreover have "(10::real) powr 3 = 1000"
    by simp
  moreover have "(5 / 4 :: real) ^ 20 < 1000"
    by (simp add: power_divide)
  ultimately show False by simp
qed

lemma blend_identity:
  fixes p c s :: real
  assumes "s \<noteq> 0"
  shows "p * (1 - (p - c) / s) + c * ((p - c) / s) = c + (p - c) * (s - (p - c)) / s"
  using assms by (simp add: field_simps)

lemma knee_blend_antitone:
  fixes cap soft p1 p2 :: real
  assumes over: "cap < p1" and le: "p1 \<le> p2" and mid: "(cap + soft) / 2 \<le> p1"
  shows "p2 * (1 - leeway_ratio_of p2 cap soft) + cap * leeway_ratio_of p2 cap soft
       \<le> p1 * (1 - leeway_ratio_of p1 cap soft) + cap * leeway_ratio_of p1 cap soft"
proof (cases "soft \<le> p1")
  case True
  then show ?thesis
    using le by (simp add: leeway_ratio_of_def)
next
  case knee: False
  then have s: "0 < soft - cap" using over by simp
  have in1: "0 \<le> (p1 - cap) * (soft - p1)"
    using over knee by (intro mult_nonneg_nonneg) simp_all
  have s0: "soft - cap \<noteq> 0" using s by simp
  have h1: "p1 * (1 - (p1 - cap) / (soft - cap)) + cap * ((p1 - cap) / (soft - cap))
        = cap + (p1 - cap) * (soft - p1) / (soft - cap)"
    using blend_identity [OF s0, of p1] by simp
  show ?thesis
  proof (cases "soft \<le> p2")
    case True
    have "cap \<le> cap + (p1 - cap) * (soft - p1) / (soft - cap)"
      using in1 s by simp
    then show ?thesis
      using True knee h1 by (simp add: leeway_ratio_of_def)
  next
    case False
    have key: "0 \<le> (p2 - p1) * (p1 + p2 - cap - soft)"
      using le mid by (intro mult_nonneg_nonneg) simp_all
    have h2: "p2 * (1 - (p2 - cap) / (soft - cap)) + cap * ((p2 - cap) / (soft - cap))
        = cap + (p2 - cap) * (soft - p2) / (soft - cap)"
      using blend_identity [OF s0, of p2] by simp
    have "(p2 - cap) * (soft - p2) \<le> (p1 - cap) * (soft - p1)"
      using key by (simp add: algebra_simps)
    then have "(p2 - cap) * (soft - p2) / (soft - cap) \<le> (p1 - cap) * (soft - p1) / (soft - cap)"
      using s by (simp add: divide_right_mono)
    then show ?thesis
      using False knee h1 h2 by (simp add: leeway_ratio_of_def)
  qed
qed

lemma volume_writes_limit_divisions:
  "volume_writes (limit_divisions po cap soft speed rp sf) = []"
  by (simp add: limit_divisions_def)

lemma target_volume_at_range:
  "0.01 \<le> target_volume_at rp po soft l" "target_volume_at rp po soft l \<le> 1"
  by (simp_all add: target_volume_at_def target_volume_of_def)

lemma limit_writes:
  assumes rp: "raw_peak > 0.001" and over: "potential_output > volume_cap l"
  shows "\<exists>l'. limit raw_peak potential_output soft l = Inr l'
           \<and> volume_writes (emitted (audio l) (audio l'))
               = [target_volume_at raw_peak potential_output soft l]
           \<and> is_limiting l'
           \<and> (volume_write_ok (endpoint (audio l)) \<longrightarrow>
                master_volume (endpoint (audio l'))
                  = target_volume_at raw_peak potential_output soft l)"
proof -
  let ?v = "target_volume_at raw_peak potential_output soft l"
  have clamp: "max 0 (min 1 ?v) = ?v"
    using target_volume_at_range [of raw_peak potential_output soft l] by simp
  show ?thesis
    by (simp add: limit_eq [OF rp over] emitted_def trace_set_volume volume_writes_append
        volume_writes_limit_divisions clamp set_volume_def log_event_def Let_def)
qed

lemma target_volume_of_antitone:
  fixes sf :: real
  assumes "0 < sf" and "x2 \<le> x1"
  shows "max 0.01 (min 1 (x2 / sf)) \<le> max 0.01 (min 1 (x1 / sf))"
proof -
  have "x2 / sf \<le> x1 / sf"
    using assms by (simp add: divide_right_mono)
  then show ?thesis by simp
qed

text \<open>
  C2, as amended. With the raw peak and the whole configuration fixed, take two original
  volumes whose potential outputs are over the volume cap, the smaller potential output
  being at least the midpoint of the cap and the soft threshold (so in the upper half of
  the leeway zone, or beyond it). Then the volume that \<open>limit\<close> writes for the larger
  potential output is at most the one it writes for the smaller.
\<close>

theorem leeway_monotone_upper_half:
  assumes rp: "raw_peak > 0.001"
    and over: "volume_cap l < raw_peak * original_volume l"
    and le: "original_volume l \<le> o2"
    and mid: "(volume_cap l + soft) / 2 \<le> raw_peak * original_volume l"
  shows "\<exists>l1' l2' v1 v2.
           limit raw_peak (raw_peak * original_volume l) soft l = Inr l1'
         \<and> limit raw_peak (raw_peak * o2) soft (l\<lparr>original_volume := o2\<rparr>) = Inr l2'
         \<and> volume_writes (emitted (audio l) (audio l1')) = [v1]
         \<and> volume_writes (emitted (audio l) (audio l2')) = [v2]
         \<and> v2 \<le> v1"
proof -
  let ?p1 = "raw_peak * original_volume l" and ?p2 = "raw_peak * o2"
  let ?l2 = "l\<lparr>original_volume := o2\<rparr>"
  have r0: "0 < raw_peak" using rp by simp
  have p12: "?p1 \<le> ?p2" using le r0 by simp
  have over2: "volume_cap ?l2 < ?p2" using over p12 by simp
  obtain l1' where l1': "limit raw_peak ?p1 soft l = Inr l1'"
      "volume_writes (emitted (audio l) (audio l1')) = [target_volume_at raw_peak ?p1 soft l]"
    using limit_writes [OF rp over] by blast
  obtain l2' where l2': "limit raw_peak ?p2 soft ?l2 = Inr l2'"
      "volume_writes (emitted (audio ?l2) (audio l2')) = [target_volume_at raw_peak ?p2 soft ?l2]"
    using limit_writes [OF rp over2] by blast
  have sf: "0 < sustained_factor_at l"
    using sustained_factor_at_ge1 [of l] by linarith
  have sf2: "sustained_factor_at ?l2 = sustained_factor_at l"
    by (simp add: sustained_factor_at_def)
  have blend: "o2 * (1 - leeway_ratio_of ?p2 (volume_cap l) soft)
         + volume_cap l / raw_peak * leeway_ratio_of ?p2 (volume_cap l) soft
       \<le> original_volume l * (1 - leeway_ratio_of ?p1 (volume_cap l) soft)
         + volume_cap l / raw_peak * leeway_ratio_of ?p1 (volume_cap l) soft"
  proof -
    have "(?p2 * (1 - leeway_ratio_of ?p2 (volume_cap l) soft)
            + volume_cap l * leeway_ratio_of ?p2 (volume_cap l) soft) / raw_peak
        \<le> (?p1 * (1 - leeway_ratio_of ?p1 (volume_cap l) soft)
            + volume_cap l * leeway_ratio_of ?p1 (volume_cap l) soft) / raw_peak"
      using knee_blend_antitone [OF over p12 mid] r0 by (simp add: divide_right_mono)
    then show ?thesis
      using r0 by (simp add: add_divide_distrib)
  qed
  have "target_volume_at raw_peak ?p2 soft ?l2 \<le> target_volume_at raw_peak ?p1 soft l"
    unfolding target_volume_at_def target_volume_of_def sf2
    using target_volume_of_antitone [OF sf blend] by simp
  then show ?thesis
    using l1' l2' by auto
qed

lemma knee_not_monotone:
  fixes S :: real
  assumes "1 / 4 < S"
  shows "target_volume_of (21 / 50) (1 / 5) (1 / 2) (leeway_ratio_of (21 / 100) (1 / 5) S) 1
       < target_volume_of (12 / 25) (1 / 5) (1 / 2) (leeway_ratio_of (6 / 25) (1 / 5) S) 1"
proof -
  define u where "u = 1 / (S - 1 / 5)"
  have d: "1 / 20 < S - 1 / 5" using assms by simp
  have u: "0 < u" "u < 20"
    using d by (simp_all add: u_def field_simps)
  have r1: "leeway_ratio_of (21 / 100) (1 / 5) S = 1 / 100 * u"
    using assms by (simp add: leeway_ratio_of_def u_def)
  have r2: "leeway_ratio_of (6 / 25) (1 / 5) S = 1 / 25 * u"
    using assms by (simp add: leeway_ratio_of_def u_def)
  have t1: "(21 / 50 * (1 - 1 / 100 * u) + 1 / 5 / (1 / 2) * (1 / 100 * u)) / 1
      = 21 / 50 - u / 5000"
    by argo
  have t2: "(12 / 25 * (1 - 1 / 25 * u) + 1 / 5 / (1 / 2) * (1 / 25 * u)) / 1
      = 12 / 25 - 2 * u / 625"
    by argo
  show ?thesis
    unfolding target_volume_of_def r1 r2 t1 t2
    using u by (simp only: power2_eq_square)
qed

text \<open>
  The claim as stated fails in the lower half of the leeway zone. With the default
  settings (cap 0.2, leeway 3 dB, so a soft threshold above 0.25) and a raw peak of one
  half, the original volumes 0.42 and 0.48 give the potential outputs 0.21 and 0.24, both
  over the cap, and the louder one is given the higher volume.
\<close>

theorem leeway_monotone_counterexample:
  "\<exists>l1' l2' v1 v2.
       limit (1 / 2) (1 / 2 * (21 / 50)) (soft_threshold_at (example_limiter set_defaults))
         ((example_limiter set_defaults)\<lparr>original_volume := 21 / 50\<rparr>) = Inr l1'
     \<and> limit (1 / 2) (1 / 2 * (12 / 25)) (soft_threshold_at (example_limiter set_defaults))
         ((example_limiter set_defaults)\<lparr>original_volume := 12 / 25\<rparr>) = Inr l2'
     \<and> volume_writes (emitted (audio (example_limiter set_defaults)) (audio l1')) = [v1]
     \<and> volume_writes (emitted (audio (example_limiter set_defaults)) (audio l2')) = [v2]
     \<and> volume_cap (example_limiter set_defaults) < 1 / 2 * (21 / 50)
     \<and> (1 / 2 * (21 / 50) :: real) < 1 / 2 * (12 / 25)
     \<and> v1 < v2"
proof -
  let ?l = "example_limiter set_defaults"
  let ?l1 = "?l\<lparr>original_volume := 21 / 50\<rparr>" and ?l2 = "?l\<lparr>original_volume := 12 / 25\<rparr>"
  let ?S = "soft_threshold_at ?l"
  have rp: "(1 / 2 :: real) > 0.001" by simp
  have cap: "volume_cap ?l = 1 / 5" "dampening ?l = 1" "dampening_speed ?l = 0"
    by (simp_all add: example_limiter_eq set_defaults_def)
  have S: "1 / 4 < ?S"
    using three_db_bounds by (simp add: soft_threshold_at_def example_limiter_eq set_defaults_def)
  have o1: "volume_cap ?l1 < 1 / 2 * (21 / 50)" and o2: "volume_cap ?l2 < 1 / 2 * (12 / 25)"
    by (simp_all add: cap)
  obtain l1' where l1': "limit (1 / 2) (1 / 2 * (21 / 50)) ?S ?l1 = Inr l1'"
      "volume_writes (emitted (audio ?l1) (audio l1'))
         = [target_volume_at (1 / 2) (1 / 2 * (21 / 50)) ?S ?l1]"
    using limit_writes [OF rp o1] by blast
  obtain l2' where l2': "limit (1 / 2) (1 / 2 * (12 / 25)) ?S ?l2 = Inr l2'"
      "volume_writes (emitted (audio ?l2) (audio l2'))
         = [target_volume_at (1 / 2) (1 / 2 * (12 / 25)) ?S ?l2]"
    using limit_writes [OF rp o2] by blast
  have sf: "sustained_factor_at ?l1 = 1" "sustained_factor_at ?l2 = 1"
    by (simp_all add: sustained_factor_at_def sustained_factor_of_def ramp_progress_of_def cap)
  have "target_volume_at (1 / 2) (1 / 2 * (21 / 50)) ?S ?l1
      < target_volume_at (1 / 2) (1 / 2 * (12 / 25)) ?S ?l2"
    using knee_not_monotone [OF S] by (simp add: target_volume_at_def sf cap)
  then show ?thesis
    using l1' l2' by (auto simp: cap)
qed

text \<open>
  An instance inside the leeway zone: cap 0.05 and soft threshold 0.5, so the midpoint is
  0.275; with a raw peak of one half the original volumes 0.6 and 0.8 give the potential
  outputs 0.3 and 0.4, both in the upper half of the zone, and the volumes written are
  29/90 and 23/90.
\<close>

lemma knee_limiter_fields:
  "volume_cap knee_limiter = 1 / 20" "original_volume knee_limiter = 3 / 5"
  "dampening knee_limiter = 1" "dampening_speed knee_limiter = 0"
  "soft_threshold_at knee_limiter = 1 / 2"
  by (simp_all add: knee_limiter_def soft_threshold_at_def example_limiter_eq set_defaults_def)

theorem leeway_monotone_upper_half_witness:
  "(1 / 2 :: real) > 0.001
   \<and> volume_cap knee_limiter < 1 / 2 * original_volume knee_limiter
   \<and> original_volume knee_limiter \<le> 4 / 5
   \<and> (volume_cap knee_limiter + soft_threshold_at knee_limiter) / 2
       \<le> 1 / 2 * original_volume knee_limiter
   \<and> soft_threshold_at knee_limiter = 1 / 2
   \<and> 1 / 2 * original_volume knee_limiter = 3 / 10
   \<and> (1 / 2 * (4 / 5) :: real) < soft_threshold_at knee_limiter
   \<and> (\<exists>l1' l2' v1 v2.
         limit (1 / 2) (1 / 2 * original_volume knee_limiter) (soft_threshold_at knee_limiter)
           knee_limiter = Inr l1'
       \<and> limit (1 / 2) (1 / 2 * (4 / 5)) (soft_threshold_at knee_limiter)
           (knee_limiter\<lparr>original_volume := 4 / 5\<rparr>) = Inr l2'
       \<and> volume_writes (emitted (audio knee_limiter) (audio l1')) = [v1]
       \<and> volume_writes (emitted (audio knee_limiter) (audio l2')) = [v2]
       \<and> v2 \<le> v1 \<and> v1 = 29 / 90 \<and> v2 = 23 / 90)"
proof -
  let ?l = knee_limiter and ?S = "soft_threshold_at knee_limiter"
  let ?l2 = "knee_limiter\<lparr>original_volume := 4 / 5\<rparr>"
  have rp: "(1 / 2 :: real) > 0.001" by simp
  have over: "volume_cap ?l < 1 / 2 * original_volume ?l"
    by (simp add: knee_limiter_fields)
  have le: "original_volume ?l \<le> 4 / 5"
    by (simp add: knee_limiter_fields)
  have mid: "(volume_cap ?l + ?S) / 2 \<le> 1 / 2 * original_volume ?l"
    by (simp add: knee_limiter_fields)
  obtain l1' l2' v1 v2 where m:
      "limit (1 / 2) (1 / 2 * original_volume ?l) ?S ?l = Inr l1'"
      "limit (1 / 2) (1 / 2 * (4 / 5)) ?S ?l2 = Inr l2'"
      "volume_writes (emitted (audio ?l) (audio l1')) = [v1]"
      "volume_writes (emitted (audio ?l) (audio l2')) = [v2]"
      "v2 \<le> v1"
    using leeway_monotone_upper_half [OF rp over le mid] by blast
  have over2: "volume_cap ?l2 < 1 / 2 * (4 / 5)"
    by (simp add: knee_limiter_fields)
  have sf: "sustained_factor_at ?l = 1" "sustained_factor_at ?l2 = 1"
    by (simp_all add: sustained_factor_at_def sustained_factor_of_def ramp_progress_of_def
        knee_limiter_fields)
  have t1: "target_volume_at (1 / 2) (1 / 2 * original_volume ?l) ?S ?l = 29 / 90"
    by (simp add: target_volume_at_def target_volume_of_def leeway_ratio_of_def sf
        knee_limiter_fields)
  have t2: "target_volume_at (1 / 2) (1 / 2 * (4 / 5)) ?S ?l2 = 23 / 90"
    by (simp add: target_volume_at_def target_volume_of_def leeway_ratio_of_def sf
        knee_limiter_fields)
  have "v1 = 29 / 90"
    using limit_writes [OF rp over, of ?S] m(1,3) t1 by auto
  moreover have "v2 = 23 / 90"
    using limit_writes [OF rp over2, of ?S] m(2,4) t2 by auto
  ultimately have ex: "\<exists>l1' l2' v1 v2.
         limit (1 / 2) (1 / 2 * original_volume ?l) ?S ?l = Inr l1'
       \<and> limit (1 / 2) (1 / 2 * (4 / 5)) ?S ?l2 = Inr l2'
       \<and> volume_writes (emitted (audio ?l) (audio l1')) = [v1]
       \<and> volume_writes (emitted (audio ?l) (audio l2')) = [v2]
       \<and> v2 \<le> v1 \<and> v1 = 29 / 90 \<and> v2 = 23 / 90"
    using m by blast
  have po: "1 / 2 * original_volume ?l = 3 / 10"
    by (simp add: knee_limiter_fields)
  have po2: "(1 / 2 * (4 / 5) :: real) < ?S"
    by (simp add: knee_limiter_fields)
  show ?thesis
    using rp over le mid knee_limiter_fields(5) po po2 ex by blast
qed

subsection \<open>The end-to-end example\<close>

lemma ready_detect:
  assumes "ready t0 tk l"
  shows "detect_user_change t (l\<lparr>last_time := now\<rparr>)
           = l\<lparr>last_time := now, audio := snd (get_volume (audio l))\<rparr>"
    and "\<not> in_user_cooldown now (detect_user_change t (l\<lparr>last_time := now\<rparr>))"
    and "fst (sample (detect_user_change t (l\<lparr>last_time := now\<rparr>))) = 1 / 2"
    and "endpoint (snd (get_volume (audio l))) = example_endpoint"
    and "cached_volume (snd (get_volume (audio l))) = 1"
  using assms
  by (simp_all add: ready_def detect_user_change_eq check_user_changed_def get_volume_def
      log_event_def Let_def in_user_cooldown_def sample_eq get_raw_peak_value
      example_endpoint_def)

lemma ready_attack_pass:
  assumes r: "ready t0 tk l" and early: "now - t0 < 0.05"
  shows "\<exists>l'. iteration now t l = Inr l' \<and> ready t0 now l'
           \<and> volume_writes (emitted (audio l) (audio l')) = []"
proof -
  define l2 where "l2 = detect_user_change t (l\<lparr>last_time := now\<rparr>)"
  note d = ready_detect(1) [OF r, of t now, folded l2_def]
    ready_detect(2) [OF r, of now t, folded l2_def]
    ready_detect(3) [OF r, of t now, folded l2_def]
  have f: "is_running l" "original_volume l2 = 1" "volume_cap l2 = 0.2"
      "attack_time l2 = 0.05" "time_over_threshold l2 = tk - t0" "last_time l = tk"
    using r by (simp_all add: d(1) ready_def)
  have over: "fst (sample l2) * original_volume l2 > volume_cap l2 \<and> fst (sample l2) > 0.001"
    by (simp add: d(3) f)
  have wait: "\<not> time_over_threshold l2 + (now - last_time l) \<ge> attack_time l2"
    using early by (simp add: f)
  define l3 where "l3 = (after_sample l2)\<lparr>time_over_threshold :=
      time_over_threshold l2 + (now - last_time l), last_over_threshold_time := now\<rparr>"
  have c: "control now (now - last_time l) l2 = Inr l3"
    unfolding l3_def by (rule control_attack [OF over wait])
  have it: "iteration now t l = Inr (publish l3)"
    using f(1) d(2) c by (simp add: iteration_control l2_def [symmetric] bind_e_Inr)
  have rd: "ready t0 now (publish l3)"
    using r
    by (simp add: ready_def l3_def d(1) publish_eq after_sample_def sample_eq get_volume_def
        get_raw_peak_def py_div_def log_event_def Let_def example_endpoint_def)
  have w: "volume_writes (emitted (audio l) (audio (publish l3))) = []"
    using r
    by (simp add: ready_def l3_def d(1) publish_eq after_sample_def sample_eq get_volume_def
        get_raw_peak_def py_div_def log_event_def Let_def example_endpoint_def emitted_def)
  show ?thesis using it rd w by blast
qed

lemma ready_engage_pass:
  assumes r: "ready t0 tk l" and late: "0.05 \<le> now - t0"
  shows "\<exists>l'. iteration now t l = Inr l' \<and> is_limiting l'
           \<and> volume_writes (emitted (audio l) (audio l')) = [2 / 5]
           \<and> master_volume (endpoint (audio l')) = 2 / 5
           \<and> last_set_volume (audio l') = 2 / 5"
proof -
  define l2 where "l2 = detect_user_change t (l\<lparr>last_time := now\<rparr>)"
  note d = ready_detect(1) [OF r, of t now, folded l2_def]
    ready_detect(2) [OF r, of now t, folded l2_def]
    ready_detect(3) [OF r, of t now, folded l2_def]
  have f: "is_running l" "original_volume l2 = 1" "volume_cap l2 = 0.2"
      "attack_time l2 = 0.05" "time_over_threshold l2 = tk - t0" "last_time l = tk"
      "leeway_db l2 = 0" "dampening l2 = 1"
    using r by (simp_all add: d(1) ready_def)
  have over: "fst (sample l2) * original_volume l2 > volume_cap l2 \<and> fst (sample l2) > 0.001"
    by (simp add: d(3) f)
  have reached: "time_over_threshold l2 + (now - last_time l) \<ge> attack_time l2"
    using late by (simp add: f)
  define l3 where "l3 = (after_sample l2)\<lparr>time_over_threshold :=
      time_over_threshold l2 + (now - last_time l), last_over_threshold_time := now\<rparr>"
  have soft: "soft_threshold_at l2 = 1 / 5"
    by (simp add: soft_threshold_at_def f)
  have c: "control now (now - last_time l) l2 = limit (1 / 2) (1 / 2) (1 / 5) l3"
    using control_limit [OF over reached] by (simp add: l3_def d(3) f soft)
  have rp: "(1 / 2 :: real) > 0.001" by simp
  have f3: "volume_cap l3 = 1 / 5" "original_volume l3 = 1" "dampening l3 = 1"
    by (simp_all add: l3_def after_sample_fields f)
  have over3: "(1 / 2 :: real) > volume_cap l3"
    by (simp add: f3)
  have tv: "target_volume_at (1 / 2) (1 / 2) (1 / 5) l3 = 2 / 5"
    by (simp add: target_volume_at_def target_volume_of_def leeway_ratio_of_def
        sustained_factor_at_def sustained_factor_of_def f3)
  define a3 where "a3 = (audio l3)\<lparr>trace := trace (audio l3)
      @ limit_divisions (1 / 2) (volume_cap l3) (1 / 5) (dampening_speed l3) (1 / 2)
          (sustained_factor_at l3)\<rparr>"
  define l4 where "l4 = l3\<lparr>is_limiting := True, audio := set_volume (2 / 5) a3\<rparr>"
  have lim: "limit (1 / 2) (1 / 2) (1 / 5) l3 = Inr l4"
    by (simp add: limit_eq [OF rp over3] tv l4_def a3_def)
  have it: "iteration now t l = Inr (publish l4)"
    using f(1) d(2) c lim by (simp add: iteration_control l2_def [symmetric] bind_e_Inr)
  have g1: "grows (\<lambda>e. \<not> is_volume_write e) (audio l) (audio l3)"
    using grows_trans [OF no_write_detect no_write_after_sample, of "l\<lparr>last_time := now\<rparr>" t]
    by (simp add: l3_def l2_def)
  have tr4: "trace (audio l4) = trace (audio l3)
      @ (limit_divisions (1 / 2) (volume_cap l3) (1 / 5) (dampening_speed l3) (1 / 2)
          (sustained_factor_at l3) @ [SetMasterVolume (2 / 5)])"
    by (simp add: l4_def a3_def trace_set_volume)
  have w: "volume_writes (emitted (audio l) (audio (publish l4))) = [2 / 5]"
    by (simp add: writes_between [OF g1 tr4 no_write_publish] volume_writes_append
        volume_writes_limit_divisions)
  have ep3: "endpoint (audio l3) = example_endpoint"
    by (simp add: l3_def after_sample_audio d(1) ready_detect(4) [OF r])
  have vol: "master_volume (endpoint (audio l4)) = 2 / 5" "last_set_volume (audio l4) = 2 / 5"
    by (simp_all add: l4_def a3_def set_volume_def log_event_def Let_def ep3 example_endpoint_def)
  have "is_limiting (publish l4)"
    by (simp add: publish_fields l4_def)
  then show ?thesis
    using it w vol by (auto simp: publish_fields)
qed

lemma emitted_trans:
  assumes "grows P a b" and "grows Q b c"
  shows "emitted a c = emitted a b @ emitted b c"
proof -
  obtain xs where xs: "trace b = trace a @ xs" using assms(1) by (auto simp: grows_def)
  obtain ys where ys: "trace c = trace b @ ys" using assms(2) by (auto simp: grows_def)
  show ?thesis by (simp add: emitted_def xs ys)
qed

lemma ready_run:
  assumes "ready t0 tk l" and "ps \<noteq> []" and "sorted_wrt (<) (map fst ps)"
    and "fst (last ps) = t0 + 0.05"
  shows "\<exists>l'. run_loop ps l = Inr l' \<and> is_limiting l'
           \<and> volume_writes (emitted (audio l) (audio l')) = [2 / 5]
           \<and> master_volume (endpoint (audio l')) = 2 / 5"
  using assms
proof (induction ps arbitrary: l tk)
  case Nil
  then show ?case by simp
next
  case (Cons p ps)
  obtain now t where p: "p = (now, t)" by (cases p)
  show ?case
  proof (cases "ps = []")
    case True
    have late: "0.05 \<le> now - t0"
      using Cons.prems(4) True by (simp add: p)
    obtain l' where "iteration now t l = Inr l'" "is_limiting l'"
        "volume_writes (emitted (audio l) (audio l')) = [2 / 5]"
        "master_volume (endpoint (audio l')) = 2 / 5"
      using ready_engage_pass [OF Cons.prems(1) late] by blast
    then show ?thesis
      by (simp add: True p bind_e_Inr)
  next
    case False
    have "last ps \<in> set ps" using False by simp
    then have "now < fst (last ps)"
      using Cons.prems(3) by (simp add: p)
    then have early: "now - t0 < 0.05"
      using Cons.prems(4) False by simp
    obtain l1 where l1: "iteration now t l = Inr l1" "ready t0 now l1"
        "volume_writes (emitted (audio l) (audio l1)) = []"
      using ready_attack_pass [OF Cons.prems(1) early] by blast
    have "\<exists>l'. run_loop ps l1 = Inr l' \<and> is_limiting l'
           \<and> volume_writes (emitted (audio l1) (audio l')) = [2 / 5]
           \<and> master_volume (endpoint (audio l')) = 2 / 5"
      using Cons.prems(3,4) False by (intro Cons.IH [OF l1(2)]) simp_all
    then obtain l' where l': "run_loop ps l1 = Inr l'" "is_limiting l'"
        "volume_writes (emitted (audio l1) (audio l')) = [2 / 5]"
        "master_volume (endpoint (audio l')) = 2 / 5"
      by blast
    have g1: "grows division_guarded (audio l) (audio l1)"
      using iteration_grows [of now t l] l1(1) by simp
    have g2: "grows division_guarded (audio l1) (audio l')"
      using run_loop_grows [of ps l1] l'(1) by simp
    have "volume_writes (emitted (audio l) (audio l')) = [2 / 5]"
      by (simp add: emitted_trans [OF g1 g2] volume_writes_append l1(3) l'(3))
    then show ?thesis
      using l1(1) l' by (simp add: p bind_e_Inr)
  qed
qed

text \<open>
  C1. The end-to-end example: cap 0.2, attack time 50 ms, no leeway, no dampening, original
  volume 1 and a raw peak held at one half. The soft threshold is the cap. Whatever the passes of the loop before it, as
  long as their times increase, after the pass 50 ms after the start the limiter is
  limiting, and the one volume written to the endpoint since the start is 0.4, which is
  also the endpoint's volume then.
\<close>

theorem end_to_end:
  assumes "ready t0 t0 l0" and "ps \<noteq> []" and "sorted_wrt (<) (map fst ps)"
    and "fst (last ps) = t0 + 0.05"
  shows "\<exists>l'. run_loop ps l0 = Inr l' \<and> is_limiting l'
           \<and> volume_writes (emitted (audio l0) (audio l')) = [0.4]
           \<and> master_volume (endpoint (audio l')) = 0.4
           \<and> \<bar>master_volume (endpoint (audio l')) - 0.4\<bar> \<le> 0.01
           \<and> soft_threshold_at l0 = volume_cap l0"
proof -
  have "soft_threshold_at l0 = volume_cap l0"
    using assms(1) by (simp add: ready_def soft_threshold_at_def)
  moreover obtain l' where "run_loop ps l0 = Inr l'" "is_limiting l'"
      "volume_writes (emitted (audio l0) (audio l')) = [2 / 5]"
      "master_volume (endpoint (audio l')) = 2 / 5"
    using ready_run [OF assms] by blast
  ultimately show ?thesis by simp
qed

theorem end_to_end_witness:
  "ready 0 0 (example_limiter (set_defaults\<lparr>s_leeway_db := 0\<rparr>))
   \<and> sorted_wrt (<) (map fst [(0.02 :: real, 0.02 :: real), (0.04, 0.04), (0.05, 0.05)])
   \<and> fst (last [(0.02 :: real, 0.02 :: real), (0.04, 0.04), (0.05, 0.05)]) = 0 + 0.05
   \<and> (\<exists>l'. run_loop [(0.02, 0.02), (0.04, 0.04), (0.05, 0.05)]
               (example_limiter (set_defaults\<lparr>s_leeway_db := 0\<rparr>)) = Inr l'
         \<and> is_limiting l'
         \<and> volume_writes
              (emitted (audio (example_limiter (set_defaults\<lparr>s_leeway_db := 0\<rparr>))) (audio l'))
             = [0.4]
         \<and> master_volume (endpoint (audio l')) = 0.4)"
proof -
  let ?l = "example_limiter (set_defaults\<lparr>s_leeway_db := 0\<rparr>)"
  let ?ps = "[(0.02 :: real, 0.02 :: real), (0.04, 0.04), (0.05, 0.05)]"
  have r: "ready 0 0 ?l"
    by (simp add: ready_def example_limiter_eq set_defaults_def)
  have n: "?ps \<noteq> []" by simp
  have s: "sorted_wrt (<) (map fst ?ps)" by simp
  have e: "fst (last ?ps) = 0 + 0.05" by simp
  show ?thesis
    using r s e end_to_end [OF r n s e] by blast
qed

end
